theory Spec2Isabelle
  imports Complex_Main "HOL-Library.Log_Nat"
begin

section \<open>Python values and exceptions\<close>

text \<open>
  The template file is read with \<^verbatim>\<open>json.load\<close>, so a template is an arbitrary JSON value:
  \<^verbatim>\<open>None\<close>, a \<^verbatim>\<open>bool\<close>, an unbounded \<^verbatim>\<open>int\<close>, a \<^verbatim>\<open>float\<close>, a \<^verbatim>\<open>str\<close>, a \<^verbatim>\<open>list\<close> or a
  \<^verbatim>\<open>dict\<close> with string keys. Floating-point numbers are a type parameter \<open>'f\<close>: the
  operations on them that the program uses are parameters of the model, so nothing proved
  below depends on how they round. A \<^verbatim>\<open>str\<close> is an HOL string (characters stand for code
  points below 256). A \<^verbatim>\<open>dict\<close> is an association list in insertion order; a Python dict
  has each key once, and a lookup reads the first entry of a key.
\<close>

datatype 'f json =
    JNull
  | JBool bool
  | JInt int
  | JFloat 'f
  | JStr string
  | JList "'f json list"
  | JDict "(string \<times> 'f json) list"

text \<open>
  Exceptions. \<open>ValueError\<close> carries the message given at the \<^verbatim>\<open>raise\<close> statement and
  \<open>KeyError\<close> the missing key. \<open>OtherError\<close> is any other subclass of \<^verbatim>\<open>Exception\<close> raised
  by a library (the file system, the JSON parser, the PDF library, the spreadsheet
  writer), with its message.
\<close>

datatype error =
    ValueError string
  | KeyError string
  | TypeError
  | OverflowError
  | IndexError
  | ZeroDivisionError
  | OtherError string

definition bind :: "error + 'a \<Rightarrow> ('a \<Rightarrow> error + 'b) \<Rightarrow> error + 'b" where
  "bind r f = (case r of Inl e \<Rightarrow> Inl e | Inr v \<Rightarrow> f v)"

text \<open>\<^verbatim>\<open>k in d\<close> for a dict \<open>d\<close>.\<close>

definition dict_has :: "(string \<times> 'f json) list \<Rightarrow> string \<Rightarrow> bool" where
  "dict_has d k = (map_of d k \<noteq> None)"

text \<open>\<^verbatim>\<open>v[k]\<close> with a string \<open>k\<close>: only a dict can be subscripted by a string.\<close>

fun py_getitem :: "'f json \<Rightarrow> string \<Rightarrow> error + 'f json" where
  "py_getitem (JDict d) k = (case map_of d k of Some v \<Rightarrow> Inr v | None \<Rightarrow> Inl (KeyError k))"
| "py_getitem _ k = Inl TypeError"

text \<open>
  \<^verbatim>\<open>for a in v\<close>: a list yields its elements, a string its characters, a dict its keys;
  nothing else is iterable.
\<close>

fun py_iter :: "'f json \<Rightarrow> error + 'f json list" where
  "py_iter (JList xs) = Inr xs"
| "py_iter (JStr s) = Inr (map (\<lambda>c. JStr [c]) s)"
| "py_iter (JDict d) = Inr (map (\<lambda>kv. JStr (fst kv)) d)"
| "py_iter _ = Inl TypeError"

text \<open>
  \<^verbatim>\<open>a + b\<close>. A \<^verbatim>\<open>bool\<close> is an \<^verbatim>\<open>int\<close> (0 or 1). Two ints add exactly. If one operand is
  a float the other is converted to a float, which raises \<^verbatim>\<open>OverflowError\<close> for an int
  out of the range of floats (\<open>None\<close> from \<open>conv\<close>), and the floats are added by \<open>fadd\<close>.
  Strings and lists concatenate. Every other pair of operands is a \<^verbatim>\<open>TypeError\<close>.
\<close>

fun as_int :: "'f json \<Rightarrow> int option" where
  "as_int (JInt i) = Some i"
| "as_int (JBool b) = Some (if b then 1 else 0)"
| "as_int _ = None"

fun as_float :: "(int \<Rightarrow> 'f option) \<Rightarrow> 'f json \<Rightarrow> error + 'f" where
  "as_float conv (JFloat a) = Inr a"
| "as_float conv v =
     (case as_int v of
        None \<Rightarrow> Inl TypeError
      | Some i \<Rightarrow> (case conv i of None \<Rightarrow> Inl OverflowError | Some a \<Rightarrow> Inr a))"

fun is_number :: "'f json \<Rightarrow> bool" where
  "is_number (JInt i) = True"
| "is_number (JBool b) = True"
| "is_number (JFloat a) = True"
| "is_number _ = False"

fun py_add :: "('f \<Rightarrow> 'f \<Rightarrow> 'f) \<Rightarrow> (int \<Rightarrow> 'f option) \<Rightarrow> 'f json \<Rightarrow> 'f json \<Rightarrow> error + 'f json" where
  "py_add fadd conv (JStr s) (JStr t) = Inr (JStr (s @ t))"
| "py_add fadd conv (JList xs) (JList ys) = Inr (JList (xs @ ys))"
| "py_add fadd conv a b =
     (if is_number a \<and> is_number b then
        (case (as_int a, as_int b) of
           (Some i, Some j) \<Rightarrow> Inr (JInt (i + j))
         | _ \<Rightarrow> bind (as_float conv a) (\<lambda>x. bind (as_float conv b) (\<lambda>y. Inr (JFloat (fadd x y)))))
      else Inl TypeError)"

section \<open>Template validation\<close>

text \<open>
  Lines 27 to 37 of \<^verbatim>\<open>PDFProcessingThread.run\<close>:
  \<^verbatim>\<open>
  if not isinstance(template, list):
      raise ValueError("Template file must contain a list of pages.")
  for page in template:
      if not isinstance(page, dict) or 'page' not in page or 'coordinates' not in page:
          raise ValueError("Each page in the template must contain 'page' and 'coordinates' keys.")
      if not isinstance(page['coordinates'], list):
          raise ValueError("The 'coordinates' key must be associated with a list of areas.")
      for area in page['coordinates']:
          if not isinstance(area, dict) or not all(k in area for k in ['x', 'y', 'width', 'height']):
              raise ValueError("Each area must contain 'x', 'y', 'width', and 'height' keys.")
  \<close>
\<close>

definition msg_list :: string where
  "msg_list = ''Template file must contain a list of pages.''"

definition msg_page :: string where
  "msg_page = ''Each page in the template must contain 'page' and 'coordinates' keys.''"

definition msg_coordinates :: string where
  "msg_coordinates = ''The 'coordinates' key must be associated with a list of areas.''"

definition msg_area :: string where
  "msg_area = ''Each area must contain 'x', 'y', 'width', and 'height' keys.''"

fun page_ok :: "'f json \<Rightarrow> bool" where
  "page_ok (JDict d) = (dict_has d ''page'' \<and> dict_has d ''coordinates'')"
| "page_ok _ = False"

fun area_ok :: "'f json \<Rightarrow> bool" where
  "area_ok (JDict d) = list_all (dict_has d) [''x'', ''y'', ''width'', ''height'']"
| "area_ok _ = False"

fun validate_areas :: "'f json list \<Rightarrow> error + unit" where
  "validate_areas [] = Inr ()"
| "validate_areas (area # rest) =
     (if \<not> area_ok area then Inl (ValueError msg_area) else validate_areas rest)"

definition validate_page :: "'f json \<Rightarrow> error + unit" where
  "validate_page page =
     (if \<not> page_ok page then Inl (ValueError msg_page)
      else bind (py_getitem page ''coordinates'') (\<lambda>coordinates.
        case coordinates of
          JList areas \<Rightarrow> validate_areas areas
        | _ \<Rightarrow> Inl (ValueError msg_coordinates)))"

fun validate_pages :: "'f json list \<Rightarrow> error + unit" where
  "validate_pages [] = Inr ()"
| "validate_pages (page # rest) = bind (validate_page page) (\<lambda>_. validate_pages rest)"

fun validate :: "'f json \<Rightarrow> error + unit" where
  "validate (JList pages) = validate_pages pages"
| "validate _ = Inl (ValueError msg_list)"

section \<open>Progress percentage\<close>

text \<open>
  Line 64: \<^verbatim>\<open>int((idx + 1) / len(self.pdf_paths) * 100)\<close>. The quotient of two ints is the
  double nearest to the exact quotient, the product with 100 is the double nearest to
  the exact product, and \<^verbatim>\<open>int\<close> truncates. The operands are positive, so the doubles
  are modelled as rationals: \<open>float_round q\<close> is the binary64 number nearest to \<open>q\<close>,
  ties to even, for \<open>0 \<le> q < 2 ^ 1024\<close> (53 significant bits, and a fixed quantum of
  \<open>2 ^ - 1074\<close> below \<open>2 ^ - 1022\<close>).
\<close>

definition round_half_even :: "rat \<Rightarrow> int" where
  "round_half_even x =
     (let n = \<lfloor>x\<rfloor>; r = x - of_int n
      in if r < 1 / 2 then n else if 1 / 2 < r then n + 1 else if even n then n else n + 1)"

text \<open>The binary exponent of \<open>q > 0\<close>: \<open>2 powi exponent q \<le> q < 2 powi (exponent q + 1)\<close>.\<close>

definition exponent :: "rat \<Rightarrow> int" where
  "exponent q = (if 1 \<le> q then bitlen \<lfloor>q\<rfloor> - 1 else - bitlen (\<lceil>1 / q\<rceil> - 1))"

definition bexp :: "rat \<Rightarrow> int" where
  "bexp q = max (exponent q) (- 1022)"

definition ulp :: "rat \<Rightarrow> rat" where
  "ulp q = 2 powi (bexp q - 52)"

definition float_round :: "rat \<Rightarrow> rat" where
  "float_round q = of_int (round_half_even (q / ulp q)) * ulp q"

definition percent :: "nat \<Rightarrow> nat \<Rightarrow> int" where
  "percent k n = \<lfloor>float_round (float_round (of_nat k / of_nat n) * 100)\<rfloor>"

text \<open>The whole expression: the division raises \<^verbatim>\<open>ZeroDivisionError\<close> for a zero length.\<close>

definition progress_value :: "nat \<Rightarrow> nat \<Rightarrow> error + int" where
  "progress_value k n = (if n = 0 then Inl ZeroDivisionError else Inr (percent k n))"

section \<open>The extraction pipeline\<close>

text \<open>
  The collaborators of \<^verbatim>\<open>PDFProcessingThread.run\<close>. A page answers
  \<^verbatim>\<open>page.get_text("blocks", clip=Rect(x0, y0, x1, y1))\<close>: given the four arguments of the
  rectangle it returns the text (\<^verbatim>\<open>block[4]\<close>) of every block found, in order, or the
  exception raised by the rectangle's constructor or by the search. A document answers
  \<^verbatim>\<open>doc[page_num]\<close>. The environment opens and parses the template file, opens documents,
  adds floats, converts an int to a float and writes the spreadsheet
  (\<^verbatim>\<open>pd.DataFrame({"Extracted Text": data}).to_excel(path, index=False, header=False)\<close>,
  \<open>None\<close> when it succeeds).
\<close>

type_synonym 'f page = "'f json \<Rightarrow> 'f json \<Rightarrow> 'f json \<Rightarrow> 'f json \<Rightarrow> error + string list"

type_synonym 'f document = "'f json \<Rightarrow> error + 'f page"

record 'f env =
  json_load :: "string \<Rightarrow> error + 'f json"
  Document :: "string \<Rightarrow> error + 'f document"
  float_add :: "'f \<Rightarrow> 'f \<Rightarrow> 'f"
  float_of_int :: "int \<Rightarrow> 'f option"
  to_excel :: "string \<Rightarrow> string list \<Rightarrow> error option"

text \<open>
  What the thread does that can be observed: the signals \<^verbatim>\<open>progress\<close> and \<^verbatim>\<open>finished\<close>,
  the console line \<^verbatim>\<open>print(f"Error: {e}")\<close> (represented by the exception \<open>e\<close> it
  formats) and the rows saved at the output path.
\<close>

datatype event =
    Progress int
  | Finished
  | Printed error
  | Wrote string "string list"

text \<open>\<^verbatim>\<open>str.isspace\<close> on code points below 256, \<^verbatim>\<open>str.strip()\<close> and \<^verbatim>\<open>sep.join\<close>.\<close>

definition isspace :: "char \<Rightarrow> bool" where
  "isspace c = (of_char c \<in> {9, 10, 11, 12, 13, 28, 29, 30, 31, 32, 133, 160 :: nat})"

definition strip :: "string \<Rightarrow> string" where
  "strip s = rev (dropWhile isspace (rev (dropWhile isspace s)))"

fun join :: "string \<Rightarrow> string list \<Rightarrow> string" where
  "join sep [] = []"
| "join sep [x] = x"
| "join sep (x # y # ys) = x @ sep @ join sep (y # ys)"

text \<open>
  Lines 51 to 58, for one \<open>area\<close> of a page:
  \<^verbatim>\<open>
  rect = Rect(area['x'], area['y'], area['x'] + area['width'], area['y'] + area['height'])
  text = page.get_text("blocks", clip=rect)
  extracted_text = "\n".join(block[4].strip() for block in text)
  \<close>
\<close>

definition extract_area :: "'f env \<Rightarrow> 'f page \<Rightarrow> 'f json \<Rightarrow> error + string" where
  "extract_area env page area =
     bind (py_getitem area ''x'') (\<lambda>x0.
     bind (py_getitem area ''y'') (\<lambda>y0.
     bind (py_getitem area ''x'') (\<lambda>x.
     bind (py_getitem area ''width'') (\<lambda>width.
     bind (py_add (float_add env) (float_of_int env) x width) (\<lambda>x1.
     bind (py_getitem area ''y'') (\<lambda>y.
     bind (py_getitem area ''height'') (\<lambda>height.
     bind (py_add (float_add env) (float_of_int env) y height) (\<lambda>y1.
     bind (page x0 y0 x1 y1) (\<lambda>text.
     Inr (join [CHR 0x0A] (map strip text)))))))))))"

text \<open>Lines 50 to 59: \<^verbatim>\<open>for area in coordinates: ... data.append(extracted_text)\<close>.\<close>

fun extract_areas :: "'f env \<Rightarrow> 'f page \<Rightarrow> 'f json list \<Rightarrow> string list \<Rightarrow> error + string list" where
  "extract_areas env page [] data = Inr data"
| "extract_areas env page (area # rest) data =
     bind (extract_area env page area) (\<lambda>extracted_text.
       extract_areas env page rest (data @ [extracted_text]))"

text \<open>
  Lines 44 to 59, for the pages of the template:
  \<^verbatim>\<open>
  for page_template in template:
      page_num = page_template['page']
      coordinates = page_template['coordinates']
      page = doc[page_num]
      for area in coordinates: ...
  \<close>
\<close>

fun extract_pages :: "'f env \<Rightarrow> 'f document \<Rightarrow> 'f json list \<Rightarrow> string list \<Rightarrow> error + string list" where
  "extract_pages env doc [] data = Inr data"
| "extract_pages env doc (page_template # rest) data =
     bind (py_getitem page_template ''page'') (\<lambda>page_num.
     bind (py_getitem page_template ''coordinates'') (\<lambda>coordinates.
     bind (doc page_num) (\<lambda>page.
     bind (py_iter coordinates) (\<lambda>areas.
     bind (extract_areas env page areas data) (\<lambda>data'.
       extract_pages env doc rest data')))))"

text \<open>
  Lines 41 to 64, over \<^verbatim>\<open>enumerate(self.pdf_paths)\<close>; \<open>n\<close> is \<^verbatim>\<open>len(self.pdf_paths)\<close>. The
  result is the signals emitted so far and either the exception that ended the loop or
  the rows collected. Opening the same path again gives the same document.
  \<^verbatim>\<open>
  for idx, pdf_path in enumerate(self.pdf_paths):
      doc = Document(pdf_path)
      for page_template in template: ...
      data.append("")
      self.progress.emit(int((idx + 1) / len(self.pdf_paths) * 100))
  \<close>
\<close>

fun process_documents ::
  "'f env \<Rightarrow> 'f json list \<Rightarrow> nat \<Rightarrow> (nat \<times> string) list \<Rightarrow> string list
    \<Rightarrow> event list \<times> (error + string list)" where
  "process_documents env template n [] data = ([], Inr data)"
| "process_documents env template n ((idx, pdf_path) # rest) data =
     (case bind (Document env pdf_path) (\<lambda>doc. extract_pages env doc template data) of
        Inl e \<Rightarrow> ([], Inl e)
      | Inr data' \<Rightarrow>
          (case progress_value (idx + 1) n of
             Inl e \<Rightarrow> ([], Inl e)
           | Inr p \<Rightarrow>
               (case process_documents env template n rest (data' @ ['''']) of
                  (evs, r) \<Rightarrow> (Progress p # evs, r))))"

text \<open>
  The \<^verbatim>\<open>try\<close> block of \<^verbatim>\<open>run\<close> (lines 24 to 68): the events it causes and the exception that
  left it, if any.
\<close>

definition run_try :: "'f env \<Rightarrow> string \<Rightarrow> string list \<Rightarrow> string \<Rightarrow> event list \<times> error option" where
  "run_try env template_path pdf_paths output_path =
     (case json_load env template_path of
        Inl e \<Rightarrow> ([], Some e)
      | Inr template \<Rightarrow>
          (case validate template of
             Inl e \<Rightarrow> ([], Some e)
           | Inr _ \<Rightarrow>
               (case py_iter template of
                  Inl e \<Rightarrow> ([], Some e)
                | Inr pages \<Rightarrow>
                    (case process_documents env pages (length pdf_paths) (enumerate 0 pdf_paths) [] of
                       (evs, Inl e) \<Rightarrow> (evs, Some e)
                     | (evs, Inr data) \<Rightarrow>
                         (case to_excel env output_path data of
                            Some e \<Rightarrow> (evs, Some e)
                          | None \<Rightarrow> (evs @ [Wrote output_path data], None))))))"

text \<open>
  \<^verbatim>\<open>run\<close>: the handler \<^verbatim>\<open>except Exception as e: print(f"Error: {e}")\<close> and, after it on
  every path, \<^verbatim>\<open>self.finished.emit()\<close>.
\<close>

definition run :: "'f env \<Rightarrow> string \<Rightarrow> string list \<Rightarrow> string \<Rightarrow> event list" where
  "run env template_path pdf_paths output_path =
     (case run_try env template_path pdf_paths output_path of
        (evs, Some e) \<Rightarrow> evs @ [Printed e, Finished]
      | (evs, None) \<Rightarrow> evs @ [Finished])"

text \<open>Projections of a trace: the progress values, the console lines, the saved outputs.\<close>

fun progress_values :: "event list \<Rightarrow> int list" where
  "progress_values [] = []"
| "progress_values (Progress p # evs) = p # progress_values evs"
| "progress_values (_ # evs) = progress_values evs"

fun printed :: "event list \<Rightarrow> error list" where
  "printed [] = []"
| "printed (Printed e # evs) = e # printed evs"
| "printed (_ # evs) = printed evs"

fun written :: "event list \<Rightarrow> (string \<times> string list) list" where
  "written [] = []"
| "written (Wrote path rows # evs) = (path, rows) # written evs"
| "written (_ # evs) = written evs"

text \<open>
  The front end (\<^verbatim>\<open>PDFMarkupTool.process_files\<close>, lines 156 to 176). The three dialogs
  give the paths; an empty answer returns. The thread's \<^verbatim>\<open>progress\<close> is connected to
  \<^verbatim>\<open>progress_bar.setValue\<close> and its \<^verbatim>\<open>finished\<close> to \<^verbatim>\<open>processing_finished\<close>.
\<close>

datatype gui_action =
    SetValue int
  | Information string string

definition processing_finished :: "gui_action list" where
  "processing_finished =
     [Information ''Processing Complete'' ''The files have been processed and saved successfully.'',
      SetValue 0]"

fun deliver :: "event \<Rightarrow> gui_action list" where
  "deliver (Progress p) = [SetValue p]"
| "deliver Finished = processing_finished"
| "deliver _ = []"

definition process_files :: "'f env \<Rightarrow> string \<Rightarrow> string list \<Rightarrow> string \<Rightarrow> gui_action list" where
  "process_files env template_path pdf_paths output_path =
     (if template_path = [] then []
      else if pdf_paths = [] then []
      else if output_path = [] then []
      else concat (map deliver (run env template_path pdf_paths output_path)))"

section \<open>The markup editor\<close>

text \<open>
  The part of \<^verbatim>\<open>PDFMarkupTool\<close> that holds the selected regions. A \<^verbatim>\<open>QRectF\<close> is four
  floats. The open document is seen through \<^verbatim>\<open>len(doc)\<close> and through rendering a page
  (\<^verbatim>\<open>doc[i].get_pixmap(...)\<close>, \<open>None\<close> when it succeeds). The scene is represented by the
  index of the page whose pixmap it shows, by the rectangles drawn (\<^verbatim>\<open>rect_items\<close>) and by
  the numbers on its text labels; each row of the list widget \<^verbatim>\<open>rect_list\<close> by the number
  it shows (\<^verbatim>\<open>Frame N\<close>, \<^verbatim>\<open>Remove N\<close>) and the index bound to its button.
\<close>

record 'f QRectF =
  rect_x :: 'f
  rect_y :: 'f
  rect_width :: 'f
  rect_height :: 'f

record gui_document =
  doc_len :: nat
  doc_render :: "int \<Rightarrow> error option"

record 'f editor =
  pdf_document :: "gui_document option"
  current_page_index :: int
  selected_areas :: "'f QRectF list"
  rect_items :: "'f QRectF list"
  scale_factor :: 'f
  scene_pixmap :: "int option"
  scene_labels :: "int list"
  rect_list :: "(int \<times> int) list"

definition scaled_rect :: "('f \<Rightarrow> 'f \<Rightarrow> 'f) \<Rightarrow> 'f \<Rightarrow> 'f QRectF \<Rightarrow> 'f QRectF" where
  "scaled_rect fmul s rect =
     \<lparr>rect_x = fmul (rect_x rect) s, rect_y = fmul (rect_y rect) s,
      rect_width = fmul (rect_width rect) s, rect_height = fmul (rect_height rect) s\<rparr>"

text \<open>
  \<^verbatim>\<open>show_page\<close> (lines 178 to 230). \<^verbatim>\<open>not self.pdf_document\<close> holds for \<^verbatim>\<open>None\<close> and for a
  document of length 0. Otherwise the scene and the list are cleared and rebuilt from
  \<^verbatim>\<open>enumerate(self.selected_areas)\<close>; \<open>fmul\<close> multiplies floats. An exception of the
  rendering leaves the handler: the result is then the exception, and the half-cleared
  scene it leaves behind is not described.
\<close>

definition show_page :: "('f \<Rightarrow> 'f \<Rightarrow> 'f) \<Rightarrow> 'f editor \<Rightarrow> error + 'f editor" where
  "show_page fmul st =
     (case pdf_document st of
        None \<Rightarrow> Inr st
      | Some doc \<Rightarrow>
          if doc_len doc = 0 then Inr st
          else (case doc_render doc (current_page_index st) of
                  Some e \<Rightarrow> Inl e
                | None \<Rightarrow>
                    Inr (st\<lparr>scene_pixmap := Some (current_page_index st),
                            rect_items := map (scaled_rect fmul (scale_factor st)) (selected_areas st),
                            scene_labels := map (\<lambda>index. int index + 1) [0..<length (selected_areas st)],
                            rect_list := map (\<lambda>index. (int index + 1, int index))
                                           [0..<length (selected_areas st)]\<rparr>)))"

text \<open>
  \<^verbatim>\<open>prev_page\<close> and \<^verbatim>\<open>next_page\<close> (lines 232 to 240). \<^verbatim>\<open>len(self.pdf_document)\<close> raises
  \<^verbatim>\<open>TypeError\<close> when no document is loaded.
\<close>

definition prev_page :: "('f \<Rightarrow> 'f \<Rightarrow> 'f) \<Rightarrow> 'f editor \<Rightarrow> error + 'f editor" where
  "prev_page fmul st =
     (if 0 < current_page_index st
      then show_page fmul (st\<lparr>current_page_index := current_page_index st - 1\<rparr>)
      else Inr st)"

definition next_page :: "('f \<Rightarrow> 'f \<Rightarrow> 'f) \<Rightarrow> 'f editor \<Rightarrow> error + 'f editor" where
  "next_page fmul st =
     (case pdf_document st of
        None \<Rightarrow> Inl TypeError
      | Some doc \<Rightarrow>
          if current_page_index st < int (doc_len doc) - 1
          then show_page fmul (st\<lparr>current_page_index := current_page_index st + 1\<rparr>)
          else Inr st)"

datatype nav = Prev | Next

fun navigate :: "('f \<Rightarrow> 'f \<Rightarrow> 'f) \<Rightarrow> 'f editor \<Rightarrow> nav list \<Rightarrow> error + 'f editor" where
  "navigate fmul st [] = Inr st"
| "navigate fmul st (Prev # navs) = bind (prev_page fmul st) (\<lambda>st'. navigate fmul st' navs)"
| "navigate fmul st (Next # navs) = bind (next_page fmul st) (\<lambda>st'. navigate fmul st' navs)"

text \<open>
  The end of a drag in \<^verbatim>\<open>eventFilter\<close> (lines 282 to 320), once the tests on the event, the
  shift key, the button and \<^verbatim>\<open>start_pos\<close> have passed. \<open>rect\<close> is
  \<^verbatim>\<open>QRectF(self.start_pos, end_pos).normalized()\<close>; \<open>fdiv\<close> divides floats and raises
  \<^verbatim>\<open>ZeroDivisionError\<close> on a zero scale factor. The state of the drag itself
  (\<^verbatim>\<open>start_pos\<close>, \<^verbatim>\<open>rect_item\<close>, \<^verbatim>\<open>is_shift_pressed\<close>) is not part of the editor record.
\<close>

definition mouse_release ::
  "('f \<Rightarrow> 'f \<Rightarrow> error + 'f) \<Rightarrow> 'f editor \<Rightarrow> 'f QRectF \<Rightarrow> error + 'f editor" where
  "mouse_release fdiv st rect =
     bind (fdiv (rect_x rect) (scale_factor st)) (\<lambda>ox.
     bind (fdiv (rect_y rect) (scale_factor st)) (\<lambda>oy.
     bind (fdiv (rect_width rect) (scale_factor st)) (\<lambda>ow.
     bind (fdiv (rect_height rect) (scale_factor st)) (\<lambda>oh.
       let original_rect = \<lparr>rect_x = ox, rect_y = oy, rect_width = ow, rect_height = oh\<rparr>;
           areas = selected_areas st @ [original_rect];
           index = int (length areas) - 1
       in Inr (st\<lparr>selected_areas := areas,
                  rect_items := rect_items st @ [rect],
                  scene_labels := scene_labels st @ [index + 1],
                  rect_list := rect_list st @ [(index + 1, index)]\<rparr>)))))"

text \<open>
  \<^verbatim>\<open>remove_rect\<close> (lines 327 to 337). \<^verbatim>\<open>del xs[index]\<close> raises \<^verbatim>\<open>IndexError\<close> out of range.
  \<^verbatim>\<open>
  if 0 <= index < len(self.rect_items):
      self.scene.removeItem(self.rect_items[index])
      del self.rect_items[index]
      del self.selected_areas[index]
      self.show_page()
  \<close>
\<close>

definition del_item :: "nat \<Rightarrow> 'a list \<Rightarrow> 'a list" where
  "del_item i xs = take i xs @ drop (Suc i) xs"

definition remove_rect :: "('f \<Rightarrow> 'f \<Rightarrow> 'f) \<Rightarrow> 'f editor \<Rightarrow> int \<Rightarrow> error + 'f editor" where
  "remove_rect fmul st index =
     (if 0 \<le> index \<and> index < int (length (rect_items st)) then
        (if nat index < length (selected_areas st)
         then show_page fmul (st\<lparr>rect_items := del_item (nat index) (rect_items st),
                                  selected_areas := del_item (nat index) (selected_areas st)\<rparr>)
         else Inl IndexError)
      else Inr st)"

text \<open>
  \<^verbatim>\<open>save_template\<close> (lines 339 to 358): the value built and, when the dialog gave a path,
  the file written with it by \<^verbatim>\<open>json.dump\<close>.
\<close>

definition area_json :: "'f QRectF \<Rightarrow> 'f json" where
  "area_json rect =
     JDict [(''x'', JFloat (rect_x rect)), (''y'', JFloat (rect_y rect)),
            (''width'', JFloat (rect_width rect)), (''height'', JFloat (rect_height rect))]"

definition template_data :: "'f editor \<Rightarrow> 'f json" where
  "template_data st =
     JList [JDict [(''page'', JInt (current_page_index st)),
                   (''coordinates'', JList (map area_json (selected_areas st)))]]"

definition save_template :: "'f editor \<Rightarrow> string \<Rightarrow> (string \<times> 'f json) option" where
  "save_template st file_path =
     (if file_path \<noteq> [] then Some (file_path, template_data st) else None)"

text \<open>
  The two lists of the editor are changed together; every operation above keeps them of
  the same length, so the second \<^verbatim>\<open>del\<close> of \<^verbatim>\<open>remove_rect\<close> is in range whenever the first is.
\<close>

definition lists_agree :: "'f editor \<Rightarrow> bool" where
  "lists_agree st = (length (rect_items st) = length (selected_areas st))"

section \<open>Reading a template back\<close>

text \<open>
  The pipeline has no separate decoder: it validates the raw value and then reads
  \<^verbatim>\<open>page_template['page']\<close>, \<^verbatim>\<open>page_template['coordinates']\<close> and, of every area,
  \<^verbatim>\<open>area['x']\<close>, \<^verbatim>\<open>area['y']\<close>, \<^verbatim>\<open>area['width']\<close> and \<^verbatim>\<open>area['height']\<close>. \<open>decode\<close> is the
  validation followed by these reads: the template as the extraction loop sees it.
\<close>

type_synonym 'f region = "'f json \<times> 'f json \<times> 'f json \<times> 'f json"

fun traverse :: "('a \<Rightarrow> error + 'b) \<Rightarrow> 'a list \<Rightarrow> error + 'b list" where
  "traverse f [] = Inr []"
| "traverse f (v # vs) = bind (f v) (\<lambda>w. bind (traverse f vs) (\<lambda>ws. Inr (w # ws)))"

definition read_area :: "'f json \<Rightarrow> error + 'f region" where
  "read_area area =
     bind (py_getitem area ''x'') (\<lambda>ax.
     bind (py_getitem area ''y'') (\<lambda>ay.
     bind (py_getitem area ''width'') (\<lambda>aw.
     bind (py_getitem area ''height'') (\<lambda>ah. Inr (ax, ay, aw, ah)))))"

definition read_page :: "'f json \<Rightarrow> error + ('f json \<times> 'f region list)" where
  "read_page page_template =
     bind (py_getitem page_template ''page'') (\<lambda>page_num.
     bind (py_getitem page_template ''coordinates'') (\<lambda>coordinates.
     bind (py_iter coordinates) (\<lambda>areas.
     bind (traverse read_area areas) (\<lambda>regions. Inr (page_num, regions)))))"

definition decode :: "'f json \<Rightarrow> error + ('f json \<times> 'f region list) list" where
  "decode raw = bind (validate raw) (\<lambda>_. bind (py_iter raw) (traverse read_page))"

definition region_of :: "'f QRectF \<Rightarrow> 'f region" where
  "region_of rect =
     (JFloat (rect_x rect), JFloat (rect_y rect), JFloat (rect_width rect), JFloat (rect_height rect))"

section \<open>The structural rules and the row order, as the specification words them\<close>

text \<open>
  These definitions follow the words of the specification, not the code; the theorems
  below compare them with the code. A sequence is a JSON list, a mapping a JSON dict.
\<close>

fun is_sequence :: "'f json \<Rightarrow> bool" where
  "is_sequence (JList xs) = True"
| "is_sequence _ = False"

fun elements :: "'f json \<Rightarrow> 'f json list" where
  "elements (JList xs) = xs"
| "elements _ = []"

fun lookup :: "'f json \<Rightarrow> string \<Rightarrow> 'f json option" where
  "lookup (JDict d) k = map_of d k"
| "lookup _ k = None"

fun is_mapping_with :: "string list \<Rightarrow> 'f json \<Rightarrow> bool" where
  "is_mapping_with keys (JDict d) = list_all (\<lambda>k. k \<in> set (map fst d)) keys"
| "is_mapping_with keys _ = False"

text \<open>
  The four structural rules of a template: the top-level value is a sequence; every
  element is a mapping containing both \<^verbatim>\<open>page\<close> and \<^verbatim>\<open>coordinates\<close>; \<^verbatim>\<open>coordinates\<close> is a
  sequence; every coordinate element is a mapping containing all of \<^verbatim>\<open>x\<close>, \<^verbatim>\<open>y\<close>,
  \<^verbatim>\<open>width\<close> and \<^verbatim>\<open>height\<close>.
\<close>

definition rule1_violated :: "'f json \<Rightarrow> bool" where
  "rule1_violated raw = (\<not> is_sequence raw)"

definition rule2_violated :: "'f json \<Rightarrow> bool" where
  "rule2_violated raw = list_ex (\<lambda>p. \<not> is_mapping_with [''page'', ''coordinates''] p) (elements raw)"

definition rule3_violated :: "'f json \<Rightarrow> bool" where
  "rule3_violated raw =
     list_ex (\<lambda>p. case lookup p ''coordinates'' of None \<Rightarrow> False | Some c \<Rightarrow> \<not> is_sequence c) (elements raw)"

definition rule4_violated :: "'f json \<Rightarrow> bool" where
  "rule4_violated raw =
     list_ex (\<lambda>p. case lookup p ''coordinates'' of
                    None \<Rightarrow> False
                  | Some c \<Rightarrow> list_ex (\<lambda>a. \<not> is_mapping_with [''x'', ''y'', ''width'', ''height''] a) (elements c))
       (elements raw)"

definition well_shaped :: "'f json \<Rightarrow> bool" where
  "well_shaped raw =
     (is_sequence raw \<and>
      list_all (\<lambda>p. is_mapping_with [''page'', ''coordinates''] p \<and>
                 (case lookup p ''coordinates'' of
                    None \<Rightarrow> False
                  | Some c \<Rightarrow> is_sequence c \<and>
                      list_all (is_mapping_with [''x'', ''y'', ''width'', ''height'']) (elements c)))
        (elements raw))"

text \<open>
  The expected rows: document order (outer), template-page order (middle), region order
  (inner), and one empty string after the rows of each document. \<open>region_row\<close> is the
  text the code extracts for one region of one page of one document.
\<close>

definition template_areas :: "'f json \<Rightarrow> 'f json list" where
  "template_areas page_template =
     (case lookup page_template ''coordinates'' of None \<Rightarrow> [] | Some c \<Rightarrow> elements c)"

definition region_row :: "'f env \<Rightarrow> string \<Rightarrow> 'f json \<Rightarrow> 'f json \<Rightarrow> error + string" where
  "region_row env pdf_path page_template area =
     bind (Document env pdf_path) (\<lambda>doc.
     bind (py_getitem page_template ''page'') (\<lambda>page_num.
     bind (doc page_num) (\<lambda>page. extract_area env page area)))"

definition document_rows :: "'f env \<Rightarrow> 'f json list \<Rightarrow> string \<Rightarrow> (error + string) list" where
  "document_rows env pages pdf_path =
     concat (map (\<lambda>page_template. map (region_row env pdf_path page_template) (template_areas page_template)) pages)"

definition ordered_rows :: "'f env \<Rightarrow> 'f json list \<Rightarrow> string list \<Rightarrow> (error + string) list" where
  "ordered_rows env pages pdf_paths =
     concat (map (\<lambda>pdf_path. document_rows env pages pdf_path @ [Inr '''']) pdf_paths)"

fun is_progress :: "event \<Rightarrow> bool" where
  "is_progress (Progress p) = True"
| "is_progress _ = False"

section \<open>Example inputs\<close>

text \<open>
  A template of one page with two regions, documents whose pages answer with a text that
  names the document and the region, and an editor with three regions. The float type of
  the examples is \<open>rat\<close>.
\<close>

definition ex_area1 :: "rat json" where
  "ex_area1 = JDict [(''x'', JInt 10), (''y'', JInt 0), (''width'', JInt 100), (''height'', JInt 20)]"

definition ex_area2 :: "rat json" where
  "ex_area2 =
     JDict [(''x'', JInt 10), (''y'', JInt 30), (''width'', JFloat (201 / 2)), (''height'', JInt 20)]"

definition ex_page_template :: "rat json" where
  "ex_page_template = JDict [(''page'', JInt 0), (''coordinates'', JList [ex_area1, ex_area2])]"

definition ex_template :: "rat json" where
  "ex_template = JList [ex_page_template]"

definition ex_page1_template :: "rat json" where
  "ex_page1_template = JDict [(''page'', JInt 1), (''coordinates'', JList [ex_area1])]"

definition ex_template_page1 :: "rat json" where
  "ex_template_page1 = JList [ex_page1_template]"

definition ex_template_untyped :: "rat json" where
  "ex_template_untyped =
     JList [JDict [(''page'', JInt 0),
                   (''coordinates'',
                    JList [JDict [(''x'', JInt 10), (''y'', JNull), (''width'', JStr ''wide''), (''height'', JInt 20)]])],
            JDict [(''page'', JStr ''first''), (''coordinates'', JList [])],
            JDict [(''page'', JInt (- 1)), (''coordinates'', JList [])]]"

definition ex_not_a_list :: "rat json" where
  "ex_not_a_list = JDict []"

definition ex_missing_page :: "rat json" where
  "ex_missing_page = JList [JDict [(''coordinates'', JList [])]]"

definition ex_coordinates_not_a_list :: "rat json" where
  "ex_coordinates_not_a_list = JList [JDict [(''page'', JInt 0), (''coordinates'', JInt 5)]]"

definition ex_missing_height :: "rat json" where
  "ex_missing_height =
     JList [JDict [(''page'', JInt 0),
                   (''coordinates'', JList [JDict [(''x'', JInt 1), (''y'', JInt 1), (''width'', JInt 1)]])]]"

definition ex_page :: "string \<Rightarrow> rat page" where
  "ex_page name x0 y0 x1 y1 =
     (if is_number x0 \<and> is_number y0 \<and> is_number x1 \<and> is_number y1
      then (if y0 = JInt 0 then Inr [name @ ''-region1'' @ [CHR 0x0A]]
            else Inr [''  '' @ name @ ''-region2''])
      else Inl (OtherError ''bad rect''))"

definition ex_document :: "string \<Rightarrow> int \<Rightarrow> rat document" where
  "ex_document name n page_num =
     (case page_num of
        JInt i \<Rightarrow> if 0 \<le> i \<and> i < n then Inr (ex_page name) else Inl IndexError
      | _ \<Rightarrow> Inl TypeError)"

definition ex_json_load :: "string \<Rightarrow> error + rat json" where
  "ex_json_load path =
     (if path = ''template.json'' then Inr ex_template
      else if path = ''page1.json'' then Inr ex_template_page1
      else if path = ''untyped.json'' then Inr ex_template_untyped
      else Inl (OtherError ''No such file or directory''))"

definition ex_Document :: "string \<Rightarrow> error + rat document" where
  "ex_Document path =
     (if path = ''doc1.pdf'' then Inr (ex_document ''doc1'' 2)
      else if path = ''doc2.pdf'' then Inr (ex_document ''doc2'' 1)
      else if path = ''doc3.pdf'' then Inr (ex_document ''doc3'' 1)
      else Inl (OtherError ''cannot open file''))"

definition ex_add :: "rat \<Rightarrow> rat \<Rightarrow> rat" where
  "ex_add a b = a + b"

definition ex_float_of_int :: "int \<Rightarrow> rat option" where
  "ex_float_of_int i = Some (of_int i)"

definition ex_to_excel :: "string \<Rightarrow> string list \<Rightarrow> error option" where
  "ex_to_excel path rows = None"

definition ex_env :: "rat env" where
  "ex_env = \<lparr>json_load = ex_json_load, Document = ex_Document, float_add = ex_add,
             float_of_int = ex_float_of_int, to_excel = ex_to_excel\<rparr>"

definition ex_json_load_bad :: "string \<Rightarrow> error + rat json" where
  "ex_json_load_bad path = Inr ex_missing_height"

definition ex_bad_env :: "rat env" where
  "ex_bad_env = \<lparr>json_load = ex_json_load_bad, Document = ex_Document, float_add = ex_add,
                 float_of_int = ex_float_of_int, to_excel = ex_to_excel\<rparr>"

definition ex_rect1 :: "rat QRectF" where
  "ex_rect1 = \<lparr>rect_x = 10, rect_y = 0, rect_width = 100, rect_height = 20\<rparr>"

definition ex_rect2 :: "rat QRectF" where
  "ex_rect2 = \<lparr>rect_x = 10, rect_y = 30, rect_width = 201 / 2, rect_height = 20\<rparr>"

definition ex_rect3 :: "rat QRectF" where
  "ex_rect3 = \<lparr>rect_x = 5, rect_y = 60, rect_width = 50, rect_height = 10\<rparr>"

definition ex_render :: "int \<Rightarrow> error option" where
  "ex_render i = (if 0 \<le> i \<and> i < 2 then None else Some IndexError)"

definition ex_gui_document :: gui_document where
  "ex_gui_document = \<lparr>doc_len = 2, doc_render = ex_render\<rparr>"

definition ex_editor :: "rat editor" where
  "ex_editor =
     \<lparr>pdf_document = Some ex_gui_document, current_page_index = 0,
      selected_areas = [ex_rect1, ex_rect2, ex_rect3], rect_items = [ex_rect1, ex_rect2, ex_rect3],
      scale_factor = 1, scene_pixmap = Some 0, scene_labels = [1, 2, 3],
      rect_list = [(1, 0), (2, 1), (3, 2)]\<rparr>"

definition ex_mul :: "rat \<Rightarrow> rat \<Rightarrow> rat" where
  "ex_mul a b = a * b"

definition ex_div :: "rat \<Rightarrow> rat \<Rightarrow> error + rat" where
  "ex_div a b = (if b = 0 then Inl ZeroDivisionError else Inr (a / b))"

definition ex_editor_removed :: "rat editor" where
  "ex_editor_removed =
     ex_editor\<lparr>selected_areas := [ex_rect2, ex_rect3], rect_items := [ex_rect2, ex_rect3],
               scene_labels := [1, 2], rect_list := [(1, 0), (2, 1)]\<rparr>"

definition ex_editor_empty :: "rat editor" where
  "ex_editor_empty =
     \<lparr>pdf_document = Some ex_gui_document, current_page_index = 0,
      selected_areas = [], rect_items = [],
      scale_factor = 2, scene_pixmap = Some 0, scene_labels = [],
      rect_list = []\<rparr>"

definition ex_drawn :: "rat QRectF" where
  "ex_drawn = \<lparr>rect_x = 20, rect_y = 0, rect_width = 200, rect_height = 40\<rparr>"

definition ex_editor_drawn :: "rat editor" where
  "ex_editor_drawn =
     ex_editor_empty\<lparr>selected_areas := [ex_rect1], rect_items := [ex_drawn],
                     scene_labels := [1], rect_list := [(1, 0)]\<rparr>"

definition ex_editor_page1 :: "rat editor" where
  "ex_editor_page1 = ex_editor_drawn\<lparr>current_page_index := 1, scene_pixmap := Some 1\<rparr>"

definition ex_two_pages :: "rat json" where
  "ex_two_pages =
     JList [JDict [(''page'', JInt 0), (''coordinates'', JList [area_json ex_rect1])],
            JDict [(''page'', JInt 1), (''coordinates'', JList [area_json ex_rect2])]]"

definition ex_drawn2 :: "rat QRectF" where
  "ex_drawn2 = \<lparr>rect_x = 20, rect_y = 60, rect_width = 201, rect_height = 40\<rparr>"

definition ex_editor_two :: "rat editor" where
  "ex_editor_two =
     ex_editor_page1\<lparr>selected_areas := [ex_rect1, ex_rect2], rect_items := [ex_drawn, ex_drawn2],
                     scene_labels := [1, 2], rect_list := [(1, 0), (2, 1)]\<rparr>"

section \<open>Rounding to the nearest double\<close>

lemma round_half_even_floor_le: "\<lfloor>x\<rfloor> \<le> round_half_even x"
  by (simp add: round_half_even_def Let_def)

lemma round_half_even_le_floor: "round_half_even x \<le> \<lfloor>x\<rfloor> + 1"
  by (simp add: round_half_even_def Let_def)

lemma round_half_even_of_int: "round_half_even (of_int n) = n"
  by (simp add: round_half_even_def Let_def)

lemma round_half_even_lower: "of_int n \<le> x \<Longrightarrow> n \<le> round_half_even x"
proof -
  assume "of_int n \<le> x"
  then have "n \<le> \<lfloor>x\<rfloor>" by (simp add: le_floor_iff)
  with round_half_even_floor_le [of x] show ?thesis by linarith
qed

lemma round_half_even_upper: "x \<le> of_int n \<Longrightarrow> round_half_even x \<le> n"
proof (cases "x = of_int n")
  case True
  then show ?thesis by (simp add: round_half_even_of_int)
next
  case False
  assume "x \<le> of_int n"
  with False have "x < of_int n" by simp
  then have "\<lfloor>x\<rfloor> < n" by (simp add: floor_less_iff)
  with round_half_even_le_floor [of x] show ?thesis by linarith
qed

lemma round_half_even_mono: "x \<le> y \<Longrightarrow> round_half_even x \<le> round_half_even y"
proof -
  assume xy: "x \<le> y"
  then have "\<lfloor>x\<rfloor> \<le> \<lfloor>y\<rfloor>" by (rule floor_mono)
  then consider "\<lfloor>x\<rfloor> = \<lfloor>y\<rfloor>" | "\<lfloor>x\<rfloor> + 1 \<le> \<lfloor>y\<rfloor>" by linarith
  then show ?thesis
  proof cases
    case 1
    with xy show ?thesis by (simp add: round_half_even_def Let_def)
  next
    case 2
    with round_half_even_le_floor [of x] round_half_even_floor_le [of y] show ?thesis by linarith
  qed
qed

lemma exponent_ge1:
  assumes "1 \<le> q"
  shows "2 powi exponent q \<le> q" and "q < 2 powi (exponent q + 1)"
proof -
  let ?n = "\<lfloor>q\<rfloor>"
  from assms have n: "0 < ?n" by simp
  from bitlen_bounds [OF n] have lo: "2 ^ nat (bitlen ?n - 1) \<le> ?n" and hi: "?n < 2 ^ nat (bitlen ?n)"
    by simp_all
  from n have b: "1 \<le> bitlen ?n" by (simp add: bitlen_alt_def)
  have e: "exponent q = bitlen ?n - 1" using assms by (simp add: exponent_def)
  from lo have "rat_of_int (2 ^ nat (bitlen ?n - 1)) \<le> of_int ?n" by (simp only: of_int_le_iff)
  also have "\<dots> \<le> q" by simp
  finally show "2 powi exponent q \<le> q" using b by (simp add: e power_int_def)
  from hi have "?n + 1 \<le> 2 ^ nat (bitlen ?n)" by simp
  then have "rat_of_int (?n + 1) \<le> of_int (2 ^ nat (bitlen ?n))" by (simp only: of_int_le_iff)
  moreover have "q < of_int (?n + 1)" by simp linarith
  ultimately have "q < of_int (2 ^ nat (bitlen ?n))" by linarith
  then show "q < 2 powi (exponent q + 1)" using b by (simp add: e power_int_def)
qed

lemma exponent_lt1:
  assumes "0 < q" "q < 1"
  shows "2 powi exponent q \<le> q" and "q < 2 powi (exponent q + 1)"
proof -
  let ?m = "\<lceil>1 / q\<rceil> - 1"
  from assms have "1 < 1 / q" by simp
  then have m: "0 < ?m" by (simp add: less_ceiling_iff)
  from bitlen_bounds [OF m] have lo: "2 ^ nat (bitlen ?m - 1) \<le> ?m" and hi: "?m < 2 ^ nat (bitlen ?m)"
    by simp_all
  from m have b: "1 \<le> bitlen ?m" by (simp add: bitlen_alt_def)
  have e: "exponent q = - bitlen ?m" using assms by (simp add: exponent_def)
  from hi have "\<lceil>1 / q\<rceil> \<le> 2 ^ nat (bitlen ?m)" by simp
  then have "rat_of_int \<lceil>1 / q\<rceil> \<le> of_int (2 ^ nat (bitlen ?m))" by (simp only: of_int_le_iff)
  moreover have "1 / q \<le> of_int \<lceil>1 / q\<rceil>" by (rule le_of_int_ceiling)
  ultimately have "1 / q \<le> of_int (2 ^ nat (bitlen ?m))" by (rule order_trans [rotated])
  then have "1 / q \<le> 2 ^ nat (bitlen ?m)" by simp
  with assms have "1 / 2 ^ nat (bitlen ?m) \<le> q" by (simp add: field_simps)
  then show "2 powi exponent q \<le> q" using b by (simp add: e power_int_def inverse_eq_divide power_divide)
  from lo have "rat_of_int (2 ^ nat (bitlen ?m - 1)) \<le> of_int ?m" by (simp only: of_int_le_iff)
  moreover have "of_int ?m < 1 / q" using ceiling_correct [of "1 / q"] by simp
  ultimately have "2 ^ nat (bitlen ?m - 1) < 1 / q" by simp
  with assms have "q < 1 / 2 ^ nat (bitlen ?m - 1)" by (simp add: field_simps)
  moreover have "2 powi (exponent q + 1) = (1::rat) / 2 ^ nat (bitlen ?m - 1)"
    using b by (auto simp add: e power_int_def inverse_eq_divide power_divide)
  ultimately show "q < 2 powi (exponent q + 1)" by simp
qed

lemma exponent_bounds:
  assumes "0 < q"
  shows "2 powi exponent q \<le> q" and "q < 2 powi (exponent q + 1)"
  using assms exponent_ge1 [of q] exponent_lt1 [of q] by (cases "1 \<le> q"; simp)+

lemma ulp_pos: "0 < ulp q"
  by (simp add: ulp_def)

lemma float_round_0 [simp]: "float_round 0 = 0"
  using round_half_even_of_int [of 0] by (simp add: float_round_def)

lemma pow2_shift: "rat_of_int (2 ^ n) * 2 powi (e - int n) = 2 powi e"
proof -
  have "rat_of_int (2 ^ n) = 2 powi int n" by simp
  moreover have "(2::rat) powi int n * 2 powi (e - int n) = 2 powi (int n + (e - int n))"
    by (rule power_int_add [symmetric]) simp
  ultimately show ?thesis by simp
qed

lemma float_round_nonneg: "0 \<le> q \<Longrightarrow> 0 \<le> float_round q"
proof -
  assume "0 \<le> q"
  then have "rat_of_int 0 \<le> q / ulp q" using ulp_pos [of q] by simp
  then have "0 \<le> round_half_even (q / ulp q)" by (rule round_half_even_lower)
  then show ?thesis using ulp_pos [of q] by (simp add: float_round_def)
qed

lemma exponent_mono:
  assumes "0 < q1" "q1 \<le> q2"
  shows "exponent q1 \<le> exponent q2"
proof (rule ccontr)
  assume "\<not> exponent q1 \<le> exponent q2"
  then have "exponent q2 + 1 \<le> exponent q1" by simp
  then have "(2::rat) powi (exponent q2 + 1) \<le> 2 powi exponent q1"
    by (intro power_int_increasing) simp_all
  also have "\<dots> \<le> q1" using assms(1) by (rule exponent_bounds)
  finally have "2 powi (exponent q2 + 1) \<le> q2" using assms(2) by simp
  moreover have "q2 < 2 powi (exponent q2 + 1)" using assms by (intro exponent_bounds) simp
  ultimately show False by simp
qed

lemma float_round_upper:
  assumes "0 < q"
  shows "float_round q \<le> 2 powi (bexp q + 1)"
proof -
  have "q < 2 powi (exponent q + 1)" using assms by (rule exponent_bounds)
  also have "\<dots> \<le> 2 powi (bexp q + 1)"
    by (intro power_int_increasing) (simp_all add: bexp_def)
  finally have "q / ulp q \<le> 2 powi (bexp q + 1) / ulp q"
    using ulp_pos [of q] by (simp add: divide_right_mono)
  also have "\<dots> = 2 powi 53"
    by (simp add: ulp_def power_int_diff [symmetric])
  also have "\<dots> = rat_of_int (2 ^ 53)" by simp
  finally have "round_half_even (q / ulp q) \<le> 2 ^ 53" by (rule round_half_even_upper)
  then have "rat_of_int (round_half_even (q / ulp q)) \<le> of_int (2 ^ 53)" by (simp only: of_int_le_iff)
  then have "float_round q \<le> of_int (2 ^ 53) * ulp q"
    unfolding float_round_def using ulp_pos [of q] by (simp add: mult_right_mono)
  also have "\<dots> = 2 powi (bexp q + 1)"
    using pow2_shift [of 53 "bexp q + 1"] by (simp add: ulp_def)
  finally show ?thesis .
qed

lemma float_round_lower:
  assumes "0 < q" "bexp q = exponent q"
  shows "2 powi bexp q \<le> float_round q"
proof -
  have "2 powi bexp q \<le> q" using assms exponent_bounds(1) [of q] by simp
  then have "2 powi bexp q / ulp q \<le> q / ulp q"
    using ulp_pos [of q] by (simp add: divide_right_mono)
  moreover have "2 powi bexp q / ulp q = (2::rat) powi 52"
    by (simp add: ulp_def power_int_diff [symmetric])
  moreover have "(2::rat) powi 52 = rat_of_int (2 ^ 52)" by simp
  ultimately have "rat_of_int (2 ^ 52) \<le> q / ulp q" by simp
  then have "2 ^ 52 \<le> round_half_even (q / ulp q)" by (rule round_half_even_lower)
  then have "rat_of_int (2 ^ 52) \<le> of_int (round_half_even (q / ulp q))" by (simp only: of_int_le_iff)
  then have "of_int (2 ^ 52) * ulp q \<le> float_round q"
    unfolding float_round_def using ulp_pos [of q] by (simp add: mult_right_mono)
  moreover have "rat_of_int (2 ^ 52) * ulp q = 2 powi bexp q"
    using pow2_shift [of 52 "bexp q"] by (simp add: ulp_def)
  ultimately show ?thesis by simp
qed

lemma float_round_mono_pos:
  assumes "0 < q1" "q1 \<le> q2"
  shows "float_round q1 \<le> float_round q2"
proof -
  from assms have q2: "0 < q2" by simp
  have "bexp q1 \<le> bexp q2" using exponent_mono [OF assms] by (simp add: bexp_def)
  then consider "bexp q1 = bexp q2" | "bexp q1 + 1 \<le> bexp q2" by linarith
  then show ?thesis
  proof cases
    case 1
    then have u: "ulp q1 = ulp q2" by (simp add: ulp_def)
    have "q1 / ulp q2 \<le> q2 / ulp q2" using assms(2) ulp_pos [of q2] by (simp add: divide_right_mono)
    then have "round_half_even (q1 / ulp q2) \<le> round_half_even (q2 / ulp q2)" by (rule round_half_even_mono)
    then have "rat_of_int (round_half_even (q1 / ulp q2)) \<le> of_int (round_half_even (q2 / ulp q2))"
      by (simp only: of_int_le_iff)
    then show ?thesis unfolding float_round_def u using ulp_pos [of q2] by (simp add: mult_right_mono)
  next
    case 2
    then have "bexp q2 = exponent q2" by (simp add: bexp_def max_def split: if_splits)
    with q2 have "2 powi bexp q2 \<le> float_round q2" by (rule float_round_lower)
    moreover have "(2::rat) powi (bexp q1 + 1) \<le> 2 powi bexp q2"
      using 2 by (intro power_int_increasing) simp_all
    moreover have "float_round q1 \<le> 2 powi (bexp q1 + 1)" using assms(1) by (rule float_round_upper)
    ultimately show ?thesis by linarith
  qed
qed

lemma float_round_mono:
  assumes "0 \<le> q1" "q1 \<le> q2"
  shows "float_round q1 \<le> float_round q2"
proof (cases "q1 = 0")
  case True
  with assms show ?thesis by (simp add: float_round_nonneg)
next
  case False
  with assms show ?thesis by (intro float_round_mono_pos) simp_all
qed

lemma percent_mono: "k1 \<le> k2 \<Longrightarrow> percent k1 n \<le> percent k2 n"
proof -
  assume "k1 \<le> k2"
  then have "(of_nat k1 :: rat) / of_nat n \<le> of_nat k2 / of_nat n"
    by (simp add: divide_right_mono)
  then have "float_round (of_nat k1 / of_nat n) \<le> float_round (of_nat k2 / of_nat n)"
    by (intro float_round_mono) simp_all
  then have le: "float_round (of_nat k1 / of_nat n) * 100 \<le> float_round (of_nat k2 / of_nat n) * 100"
    by simp
  have "0 \<le> float_round (of_nat k1 / of_nat n) * 100"
    by (simp add: float_round_nonneg)
  from this le have "float_round (float_round (of_nat k1 / of_nat n) * 100)
      \<le> float_round (float_round (of_nat k2 / of_nat n) * 100)"
    by (rule float_round_mono)
  then show ?thesis unfolding percent_def by (rule floor_mono)
qed

lemma float_round_1: "float_round 1 = 1"
  by code_simp

lemma float_round_100: "float_round 100 = 100"
  by code_simp

lemma percent_full: "0 < n \<Longrightarrow> percent n n = 100"
  by (simp add: percent_def float_round_1 float_round_100)

section \<open>Validation\<close>

lemma dict_has_iff: "dict_has d k \<longleftrightarrow> k \<in> set (map fst d)"
  by (simp add: dict_has_def map_of_eq_None_iff)

lemma page_ok_iff: "page_ok p \<longleftrightarrow> is_mapping_with [''page'', ''coordinates''] p"
  by (cases p) (simp_all add: dict_has_iff)

lemma area_ok_iff: "area_ok a \<longleftrightarrow> is_mapping_with [''x'', ''y'', ''width'', ''height''] a"
  by (cases a) (simp_all add: dict_has_iff)

lemma validate_areas_eq:
  "validate_areas areas = (if list_all area_ok areas then Inr () else Inl (ValueError msg_area))"
  by (induction areas) simp_all

lemma py_getitem_lookup:
  "py_getitem v k = (case lookup v k of Some w \<Rightarrow> Inr w | None \<Rightarrow> Inl (case v of JDict d \<Rightarrow> KeyError k | _ \<Rightarrow> TypeError))"
  by (cases v) (simp_all split: option.splits)

lemma page_ok_lookup: "page_ok p \<Longrightarrow> \<exists>c. lookup p ''coordinates'' = Some c"
  by (cases p) (auto simp: dict_has_def)

lemma validate_page_eq:
  "validate_page p =
     (if \<not> page_ok p then Inl (ValueError msg_page)
      else case lookup p ''coordinates'' of
             Some (JList areas) \<Rightarrow> if list_all area_ok areas then Inr () else Inl (ValueError msg_area)
           | _ \<Rightarrow> Inl (ValueError msg_coordinates))"
proof (cases "page_ok p")
  case False
  then show ?thesis by (simp add: validate_page_def)
next
  case True
  then obtain c where "lookup p ''coordinates'' = Some c" using page_ok_lookup by blast
  with True show ?thesis
    by (cases c) (simp_all add: validate_page_def py_getitem_lookup bind_def validate_areas_eq)
qed

lemma validate_pages_Inr: "validate_pages pages = Inr () \<longleftrightarrow> list_all (\<lambda>p. validate_page p = Inr ()) pages"
  by (induction pages) (auto simp: bind_def split: sum.splits)

lemma validate_pages_Inl: "validate_pages pages = Inl e \<Longrightarrow> \<exists>p\<in>set pages. validate_page p = Inl e"
  by (induction pages) (auto simp: bind_def split: sum.splits)

lemma validate_page_cases:
  "validate_page p = Inr () \<or> validate_page p = Inl (ValueError msg_page)
     \<or> validate_page p = Inl (ValueError msg_coordinates) \<or> validate_page p = Inl (ValueError msg_area)"
  by (simp add: validate_page_eq split: option.splits json.splits)

lemma msgs_distinct: "distinct [msg_list, msg_page, msg_coordinates, msg_area]"
  by (simp add: msg_list_def msg_page_def msg_coordinates_def msg_area_def)

lemma rule1_msg: "rule1_violated raw \<Longrightarrow> validate raw = Inl (ValueError msg_list)"
  by (cases raw) (simp_all add: rule1_violated_def)

lemma page_violation_rejected:
  assumes "\<not> is_mapping_with [''page'', ''coordinates''] p
     \<or> (case lookup p ''coordinates'' of None \<Rightarrow> False | Some c \<Rightarrow> \<not> is_sequence c)
     \<or> (case lookup p ''coordinates'' of None \<Rightarrow> False
         | Some c \<Rightarrow> list_ex (\<lambda>a. \<not> is_mapping_with [''x'', ''y'', ''width'', ''height''] a) (elements c))"
  shows "validate_page p \<noteq> Inr ()"
  using assms
  by (auto simp: validate_page_eq page_ok_iff area_ok_iff list_ex_iff list_all_iff
      split: option.splits json.splits)

lemma rules234_page:
  assumes "rule2_violated (JList pages) \<or> rule3_violated (JList pages) \<or> rule4_violated (JList pages)"
  shows "\<exists>p\<in>set pages. validate_page p \<noteq> Inr ()"
proof -
  from assms obtain p where "p \<in> set pages"
    and "\<not> is_mapping_with [''page'', ''coordinates''] p
     \<or> (case lookup p ''coordinates'' of None \<Rightarrow> False | Some c \<Rightarrow> \<not> is_sequence c)
     \<or> (case lookup p ''coordinates'' of None \<Rightarrow> False
         | Some c \<Rightarrow> list_ex (\<lambda>a. \<not> is_mapping_with [''x'', ''y'', ''width'', ''height''] a) (elements c))"
    unfolding rule2_violated_def rule3_violated_def rule4_violated_def
    by (simp add: list_ex_iff [of _ pages]) blast
  then show ?thesis using page_violation_rejected by blast
qed

lemma rules234_msg:
  assumes "rule2_violated raw \<or> rule3_violated raw \<or> rule4_violated raw"
  shows "validate raw \<in> {Inl (ValueError msg_page), Inl (ValueError msg_coordinates), Inl (ValueError msg_area)}"
proof (cases raw)
  case (JList pages)
  with assms obtain p where p: "p \<in> set pages" and "validate_page p \<noteq> Inr ()"
    using rules234_page by blast
  then have "validate_pages pages \<noteq> Inr ()"
    by (auto simp: validate_pages_Inr list_all_iff)
  then obtain e where e: "validate_pages pages = Inl e" by (cases "validate_pages pages") auto
  then obtain p' where "p' \<in> set pages" "validate_page p' = Inl e" using validate_pages_Inl by blast
  with validate_page_cases [of p'] e JList show ?thesis by auto
qed (use assms in \<open>simp_all add: rule2_violated_def rule3_violated_def rule4_violated_def\<close>)

lemma msg_page_rule2:
  assumes "validate raw = Inl (ValueError msg_page)"
  shows "rule2_violated raw"
proof (cases raw)
  case (JList pages)
  with assms obtain p where "p \<in> set pages" "validate_page p = Inl (ValueError msg_page)"
    using validate_pages_Inl by fastforce
  then show ?thesis using msgs_distinct JList
    by (auto simp: validate_page_eq page_ok_iff rule2_violated_def list_ex_iff
        split: if_splits option.splits json.splits)
qed (use assms msgs_distinct in auto)

lemma msg_coordinates_rule3:
  assumes "validate raw = Inl (ValueError msg_coordinates)"
  shows "rule3_violated raw"
proof (cases raw)
  case (JList pages)
  with assms obtain p where "p \<in> set pages" "validate_page p = Inl (ValueError msg_coordinates)"
    using validate_pages_Inl by fastforce
  then show ?thesis using msgs_distinct JList page_ok_lookup [of p]
    by (auto simp: validate_page_eq rule3_violated_def list_ex_iff
        split: if_splits option.splits json.splits)
qed (use assms msgs_distinct in auto)

lemma msg_area_rule4:
  assumes "validate raw = Inl (ValueError msg_area)"
  shows "rule4_violated raw"
proof (cases raw)
  case (JList pages)
  with assms obtain p where p: "p \<in> set pages" and v: "validate_page p = Inl (ValueError msg_area)"
    using validate_pages_Inl by fastforce
  from v msgs_distinct obtain areas where "lookup p ''coordinates'' = Some (JList areas)"
    and "\<not> list_all area_ok areas"
    by (auto simp: validate_page_eq split: if_splits option.splits json.splits)
  then have "case lookup p ''coordinates'' of None \<Rightarrow> False
      | Some c \<Rightarrow> list_ex (\<lambda>a. \<not> is_mapping_with [''x'', ''y'', ''width'', ''height''] a) (elements c)"
    by (auto simp: area_ok_iff list_ex_iff list_all_iff)
  with p JList show ?thesis unfolding rule4_violated_def by (auto simp: list_ex_iff [of _ pages])
qed (use assms msgs_distinct in auto)

lemma msg_list_rule1:
  assumes "validate raw = Inl (ValueError msg_list)"
  shows "rule1_violated raw"
proof (cases raw)
  case (JList pages)
  with assms have "validate_pages pages = Inl (ValueError msg_list)" by simp
  then obtain p where "p \<in> set pages" "validate_page p = Inl (ValueError msg_list)"
    using validate_pages_Inl by blast
  with validate_page_cases [of p] msgs_distinct show ?thesis by auto
qed (simp_all add: rule1_violated_def)

lemma run_validation_failure:
  "json_load env template_path = Inr raw \<Longrightarrow> validate raw = Inl e \<Longrightarrow>
   run env template_path pdf_paths output_path = [Printed e, Finished]"
  by (simp add: run_def run_try_def)

text \<open>
  C3. For every raw template value, decoding fails with a format error before any
  extraction begins whenever a structural rule is violated: a value that is not a
  sequence is rejected with the first message, and a sequence that violates one of the
  other three rules is rejected with one of the other three messages. The message
  identifies a rule that the value does violate, the four messages are pairwise distinct,
  and a run whose template is rejected prints that error and does nothing else: no
  document is opened, no progress is emitted and nothing is written.
\<close>

theorem validation_rejects_malformed:
  "(rule1_violated raw \<longrightarrow> validate raw = Inl (ValueError msg_list))
   \<and> (rule2_violated raw \<or> rule3_violated raw \<or> rule4_violated raw \<longrightarrow>
        validate raw \<in> {Inl (ValueError msg_page), Inl (ValueError msg_coordinates), Inl (ValueError msg_area)})
   \<and> (validate raw = Inl (ValueError msg_list) \<longrightarrow> rule1_violated raw)
   \<and> (validate raw = Inl (ValueError msg_page) \<longrightarrow> rule2_violated raw)
   \<and> (validate raw = Inl (ValueError msg_coordinates) \<longrightarrow> rule3_violated raw)
   \<and> (validate raw = Inl (ValueError msg_area) \<longrightarrow> rule4_violated raw)
   \<and> distinct [msg_list, msg_page, msg_coordinates, msg_area]
   \<and> (json_load env template_path = Inr raw \<and> validate raw = Inl e \<longrightarrow>
        run env template_path pdf_paths output_path = [Printed e, Finished])"
  using rule1_msg [of raw] rules234_msg [of raw] msg_list_rule1 [of raw] msg_page_rule2 [of raw]
    msg_coordinates_rule3 [of raw] msg_area_rule4 [of raw] msgs_distinct
    run_validation_failure [of env template_path raw e pdf_paths output_path]
  by blast

text \<open>
  C3, witness: the three rejected values named by the specification and a value whose
  \<^verbatim>\<open>coordinates\<close> is a number, each with its own message, and a run on the third.
\<close>

theorem validation_rejects_malformed_witness:
  "rule1_violated ex_not_a_list \<and> validate ex_not_a_list = Inl (ValueError msg_list)
   \<and> rule2_violated ex_missing_page \<and> validate ex_missing_page = Inl (ValueError msg_page)
   \<and> rule3_violated ex_coordinates_not_a_list
   \<and> validate ex_coordinates_not_a_list = Inl (ValueError msg_coordinates)
   \<and> rule4_violated ex_missing_height \<and> validate ex_missing_height = Inl (ValueError msg_area)
   \<and> validate ex_missing_page
       \<in> {Inl (ValueError msg_page), Inl (ValueError msg_coordinates), Inl (ValueError msg_area)}
   \<and> json_load ex_bad_env ''template.json'' = Inr ex_missing_height
   \<and> run ex_bad_env ''template.json'' [''doc1.pdf''] ''out.xlsx'' = [Printed (ValueError msg_area), Finished]"
proof -
  have r1: "rule1_violated ex_not_a_list" by (simp add: rule1_violated_def ex_not_a_list_def)
  have r2: "rule2_violated ex_missing_page" by (simp add: rule2_violated_def ex_missing_page_def)
  have v1: "validate ex_not_a_list = Inl (ValueError msg_list)" by (simp add: ex_not_a_list_def)
  have v2: "validate ex_missing_page = Inl (ValueError msg_page)"
    by (simp add: ex_missing_page_def validate_page_def dict_has_def bind_def)
  have v3: "validate ex_coordinates_not_a_list = Inl (ValueError msg_coordinates)"
    by (simp add: ex_coordinates_not_a_list_def validate_page_def dict_has_def bind_def)
  have v4: "validate ex_missing_height = Inl (ValueError msg_area)"
    by (simp add: ex_missing_height_def validate_page_def dict_has_def bind_def)
  have l: "json_load ex_bad_env ''template.json'' = Inr ex_missing_height"
    by (simp add: ex_bad_env_def ex_json_load_bad_def)
  from validation_rejects_malformed [of ex_not_a_list] r1 v1
  have 1: "rule1_violated ex_not_a_list \<and> validate ex_not_a_list = Inl (ValueError msg_list)" by blast
  from validation_rejects_malformed [of ex_missing_page] r2 v2
  have 2: "rule2_violated ex_missing_page
    \<and> validate ex_missing_page
       \<in> {Inl (ValueError msg_page), Inl (ValueError msg_coordinates), Inl (ValueError msg_area)}"
    by blast
  from validation_rejects_malformed [of ex_coordinates_not_a_list] v3
  have 3: "rule3_violated ex_coordinates_not_a_list" by blast
  from validation_rejects_malformed [of ex_missing_height] v4
  have 4: "rule4_violated ex_missing_height" by blast
  from validation_rejects_malformed
      [of ex_missing_height ex_bad_env "''template.json''" "ValueError msg_area" "[''doc1.pdf'']" "''out.xlsx''"] l v4
  have 5: "run ex_bad_env ''template.json'' [''doc1.pdf''] ''out.xlsx'' = [Printed (ValueError msg_area), Finished]"
    by blast
  from 1 2 3 4 5 v2 v3 v4 l show ?thesis by blast
qed

lemma well_shaped_validate: "well_shaped raw \<Longrightarrow> validate raw = Inr ()"
proof (cases raw)
  case (JList pages)
  assume "well_shaped raw"
  with JList have "list_all (\<lambda>p. validate_page p = Inr ()) pages"
    unfolding well_shaped_def list_all_iff
    by (auto simp: validate_page_eq page_ok_iff area_ok_iff list_all_iff split: option.splits json.splits)
  with JList show ?thesis by (simp add: validate_pages_Inr)
qed (simp_all add: well_shaped_def)

section \<open>The pipeline\<close>

lemma progress_values_append: "progress_values (a @ b) = progress_values a @ progress_values b"
  by (induction a rule: progress_values.induct) simp_all

lemma printed_append: "printed (a @ b) = printed a @ printed b"
  by (induction a rule: printed.induct) simp_all

lemma written_append: "written (a @ b) = written a @ written b"
  by (induction a rule: written.induct) simp_all

lemma printed_progress: "list_all is_progress evs \<Longrightarrow> printed evs = []"
  by (induction evs rule: printed.induct) simp_all

lemma written_progress: "list_all is_progress evs \<Longrightarrow> written evs = []"
  by (induction evs rule: written.induct) simp_all

lemma extract_areas_rows:
  "extract_areas env page areas data = Inr data' \<Longrightarrow>
   map Inr data' = map Inr data @ map (extract_area env page) areas"
proof (induction areas arbitrary: data)
  case Nil
  then show ?case by simp
next
  case (Cons area rest)
  from Cons.prems obtain t where t: "extract_area env page area = Inr t"
    and rest: "extract_areas env page rest (data @ [t]) = Inr data'"
    by (auto simp: bind_def split: sum.splits)
  from Cons.IH [OF rest] t show ?case by simp
qed

lemma valid_page_areas:
  assumes "validate_page pt = Inr ()"
  shows "\<exists>c. py_getitem pt ''coordinates'' = Inr c \<and> py_iter c = Inr (template_areas pt)"
  using assms page_ok_lookup [of pt]
  by (auto simp: validate_page_eq py_getitem_lookup template_areas_def
      split: if_splits option.splits json.splits)

lemma extract_pages_rows:
  assumes "Document env pdf_path = Inr doc"
    and "list_all (\<lambda>p. validate_page p = Inr ()) pages"
    and "extract_pages env doc pages data = Inr data'"
  shows "map Inr data' = map Inr data @ document_rows env pages pdf_path"
  using assms(2,3)
proof (induction pages arbitrary: data)
  case Nil
  then show ?case by (simp add: document_rows_def)
next
  case (Cons pt rest)
  from Cons.prems(1) have v: "validate_page pt = Inr ()" and vs: "list_all (\<lambda>p. validate_page p = Inr ()) rest"
    by simp_all
  from valid_page_areas [OF v] obtain c where c: "py_getitem pt ''coordinates'' = Inr c"
    and it: "py_iter c = Inr (template_areas pt)" by blast
  from Cons.prems(2) c it obtain page_num page mid where pn: "py_getitem pt ''page'' = Inr page_num"
    and pg: "doc page_num = Inr page"
    and ar: "extract_areas env page (template_areas pt) data = Inr mid"
    and rest: "extract_pages env doc rest mid = Inr data'"
    by (auto simp: bind_def split: sum.splits)
  have "map (region_row env pdf_path pt) (template_areas pt) = map (extract_area env page) (template_areas pt)"
    using assms(1) pn pg by (simp add: region_row_def bind_def)
  with extract_areas_rows [OF ar] Cons.IH [OF vs rest] show ?case
    by (simp add: document_rows_def)
qed

lemma extract_pages_loads:
  assumes "extract_pages env doc pages data = Inr data'"
    and "pt \<in> set pages" and "py_getitem pt ''page'' = Inr page_num"
  shows "\<exists>page. doc page_num = Inr page"
  using assms
proof (induction pages arbitrary: data)
  case Nil
  then show ?case by simp
next
  case (Cons p rest)
  from Cons.prems(1) obtain pn pg mid where "py_getitem p ''page'' = Inr pn" "doc pn = Inr pg"
    and rest: "extract_pages env doc rest mid = Inr data'"
    by (auto simp: bind_def split: sum.splits)
  with Cons.IH [OF rest] Cons.prems(2,3) show ?case by auto
qed

lemma process_documents_events:
  "process_documents env template n items data = (evs, r) \<Longrightarrow>
   \<exists>k\<le>length items. evs = map (\<lambda>item. Progress (percent (fst item + 1) n)) (take k items)
      \<and> (\<forall>d. r = Inr d \<longrightarrow> k = length items)"
proof (induction items arbitrary: data evs r)
  case Nil
  then show ?case by simp
next
  case (Cons item rest)
  obtain idx pdf_path where item: "item = (idx, pdf_path)" by (cases item)
  show ?case
  proof (cases "bind (Document env pdf_path) (\<lambda>doc. extract_pages env doc template data)")
    case (Inl e)
    with Cons.prems item have "evs = []" "r = Inl e" by simp_all
    then show ?thesis by (intro exI [of _ 0]) simp
  next
    case (Inr data')
    show ?thesis
    proof (cases "n = 0")
      case True
      with Cons.prems item Inr have "evs = []" "r = Inl ZeroDivisionError"
        by (simp_all add: progress_value_def)
      then show ?thesis by (intro exI [of _ 0]) simp
    next
      case False
      obtain evs' r' where rec: "process_documents env template n rest (data' @ ['''']) = (evs', r')"
        by (cases "process_documents env template n rest (data' @ [''''])")
      from Cons.IH [OF rec] obtain k where k: "k \<le> length rest"
        "evs' = map (\<lambda>item. Progress (percent (fst item + 1) n)) (take k rest)"
        "\<forall>d. r' = Inr d \<longrightarrow> k = length rest" by blast
      from Cons.prems item Inr rec False
      have "evs = Progress (percent (idx + 1) n) # evs'" "r = r'"
        by (simp_all add: progress_value_def)
      with k item show ?thesis by (intro exI [of _ "Suc k"]) simp
    qed
  qed
qed

lemma process_documents_progress:
  "process_documents env template n items data = (evs, r) \<Longrightarrow> list_all is_progress evs"
  using process_documents_events [of env template n items data evs r]
  by (auto simp: list_all_iff)

lemma process_documents_rows:
  assumes "list_all (\<lambda>p. validate_page p = Inr ()) pages"
    and "process_documents env pages n items data = (evs, Inr data')"
  shows "map Inr data' = map Inr data @ ordered_rows env pages (map snd items)"
  using assms(2)
proof (induction items arbitrary: data evs)
  case Nil
  then show ?case by (simp add: ordered_rows_def)
next
  case (Cons item rest)
  obtain idx pdf_path where item: "item = (idx, pdf_path)" by (cases item)
  from Cons.prems item obtain doc mid evs' where doc: "Document env pdf_path = Inr doc"
    and ex: "extract_pages env doc pages data = Inr mid"
    and rec: "process_documents env pages n rest (mid @ ['''']) = (evs', Inr data')"
    by (auto simp: bind_def split: sum.splits prod.splits)
  from extract_pages_rows [OF doc assms(1) ex] Cons.IH [OF rec] item show ?case
    by (simp add: ordered_rows_def)
qed

lemma process_documents_loads:
  assumes "process_documents env pages n items data = (evs, Inr data')"
    and "pdf_path \<in> snd ` set items" and "Document env pdf_path = Inr doc"
    and "pt \<in> set pages" and "py_getitem pt ''page'' = Inr page_num"
  shows "\<exists>page. doc page_num = Inr page"
  using assms(1,2)
proof (induction items arbitrary: data evs)
  case Nil
  then show ?case by simp
next
  case (Cons item rest)
  obtain idx p where item: "item = (idx, p)" by (cases item)
  from Cons.prems(1) item obtain d mid evs' where d: "Document env p = Inr d"
    and ex: "extract_pages env d pages data = Inr mid"
    and rec: "process_documents env pages n rest (mid @ ['''']) = (evs', Inr data')"
    by (auto simp: bind_def split: sum.splits prod.splits)
  show ?case
  proof (cases "pdf_path = p")
    case True
    with d assms(3) have "d = doc" by simp
    with ex assms(4,5) show ?thesis using extract_pages_loads by blast
  next
    case False
    with Cons.prems(2) item have "pdf_path \<in> snd ` set rest" by auto
    with Cons.IH [OF rec] show ?thesis .
  qed
qed

lemma run_try_error:
  assumes "run_try env template_path pdf_paths output_path = (evs, Some e)"
  shows "list_all is_progress evs"
  using assms
  by (auto simp: run_try_def dest: process_documents_progress
      split: sum.splits prod.splits option.splits)

lemma run_try_success:
  assumes "run_try env template_path pdf_paths output_path = (evs, None)"
  shows "\<exists>pages ps rows. json_load env template_path = Inr (JList pages)
      \<and> validate_pages pages = Inr ()
      \<and> process_documents env pages (length pdf_paths) (enumerate 0 pdf_paths) [] = (ps, Inr rows)
      \<and> to_excel env output_path rows = None \<and> evs = ps @ [Wrote output_path rows]"
proof -
  from assms obtain template where t: "json_load env template_path = Inr template"
    and v: "validate template = Inr ()"
    by (auto simp: run_try_def split: sum.splits)
  from v obtain pages where pages: "template = JList pages" by (cases template) simp_all
  with assms t v show ?thesis
    by (auto simp: run_try_def split: sum.splits prod.splits option.splits)
qed

lemma run_wrote:
  assumes "Wrote out rows \<in> set (run env template_path pdf_paths output_path)"
  shows "\<exists>pages ps. json_load env template_path = Inr (JList pages)
      \<and> validate_pages pages = Inr ()
      \<and> process_documents env pages (length pdf_paths) (enumerate 0 pdf_paths) [] = (ps, Inr rows)
      \<and> out = output_path
      \<and> run env template_path pdf_paths output_path = ps @ [Wrote output_path rows, Finished]"
proof -
  obtain evs r where rt: "run_try env template_path pdf_paths output_path = (evs, r)"
    by (cases "run_try env template_path pdf_paths output_path")
  show ?thesis
  proof (cases r)
    case (Some e)
    with rt have "list_all is_progress evs" using run_try_error by blast
    with assms rt Some show ?thesis by (auto simp: run_def list_all_iff)
  next
    case None
    with rt obtain pages ps rows' where *: "json_load env template_path = Inr (JList pages)"
      "validate_pages pages = Inr ()"
      "process_documents env pages (length pdf_paths) (enumerate 0 pdf_paths) [] = (ps, Inr rows')"
      "evs = ps @ [Wrote output_path rows']"
      using run_try_success by blast
    from *(3) have "list_all is_progress ps" by (rule process_documents_progress)
    with assms rt None *(4) have "out = output_path" "rows = rows'"
      by (auto simp: run_def list_all_iff)
    with * rt None show ?thesis by (simp add: run_def)
  qed
qed

lemma run_error_projections:
  assumes "run_try env template_path pdf_paths output_path = (evs, Some e)"
  shows "printed (run env template_path pdf_paths output_path) = [e]
    \<and> written (run env template_path pdf_paths output_path) = []
    \<and> progress_values (run env template_path pdf_paths output_path) = progress_values evs"
  using assms run_try_error [OF assms]
  by (simp add: run_def printed_append written_append progress_values_append
      printed_progress written_progress)

lemma map_fst_enumerate_fun:
  "map (\<lambda>item. f (fst item)) (enumerate n xs) = map f [n..<n + length xs]"
proof -
  have "map (\<lambda>item. f (fst item)) (enumerate n xs) = map f (map fst (enumerate n xs))"
    by (simp only: map_map comp_def)
  then show ?thesis by (simp only: map_fst_enumerate)
qed

lemma enumerate_progress:
  "map (\<lambda>item. Progress (percent (fst item + 1) n)) (enumerate 0 xs)
     = map (\<lambda>k. Progress (percent k n)) [1..<Suc (length xs)]"
proof -
  have "map (\<lambda>item. Progress (percent (fst item + 1) n)) (enumerate 0 xs)
      = map (\<lambda>i. Progress (percent (i + 1) n)) [0..<0 + length xs]"
    by (rule map_fst_enumerate_fun)
  also have "\<dots> = map (\<lambda>k. Progress (percent k n)) (map Suc [0..<length xs])"
    by simp
  also have "\<dots> = map (\<lambda>k. Progress (percent k n)) [1..<Suc (length xs)]"
    by (simp only: map_Suc_upt) simp
  finally show ?thesis .
qed

lemma progress_values_map: "progress_values (map (\<lambda>k. Progress (f k)) ks) = map f ks"
  by (induction ks) simp_all

lemma process_documents_completed:
  "process_documents env template n items data = (evs, r) \<Longrightarrow>
   \<exists>k\<le>length items. evs = map (\<lambda>item. Progress (percent (fst item + 1) n)) (take k items)
      \<and> (\<forall>item\<in>set (take k items). \<exists>doc d0 d1.
            Document env (snd item) = Inr doc \<and> extract_pages env doc template d0 = Inr d1)
      \<and> (\<forall>d. r = Inr d \<longrightarrow> k = length items)"
proof (induction items arbitrary: data evs r)
  case Nil
  then show ?case by simp
next
  case (Cons item rest)
  obtain idx pdf_path where item: "item = (idx, pdf_path)" by (cases item)
  show ?case
  proof (cases "bind (Document env pdf_path) (\<lambda>doc. extract_pages env doc template data)")
    case (Inl e)
    with Cons.prems item have "evs = []" "r = Inl e" by simp_all
    then show ?thesis by (intro exI [of _ 0]) simp
  next
    case (Inr data')
    then obtain doc where doc: "Document env pdf_path = Inr doc"
      and ex: "extract_pages env doc template data = Inr data'"
      by (auto simp: bind_def split: sum.splits)
    show ?thesis
    proof (cases "n = 0")
      case True
      with Cons.prems item Inr have "evs = []" "r = Inl ZeroDivisionError"
        by (simp_all add: progress_value_def)
      then show ?thesis by (intro exI [of _ 0]) simp
    next
      case False
      obtain evs' r' where rec: "process_documents env template n rest (data' @ ['''']) = (evs', r')"
        by (cases "process_documents env template n rest (data' @ [''''])")
      from Cons.IH [OF rec] obtain k where k: "k \<le> length rest"
        "evs' = map (\<lambda>item. Progress (percent (fst item + 1) n)) (take k rest)"
        "\<forall>item\<in>set (take k rest). \<exists>doc d0 d1.
            Document env (snd item) = Inr doc \<and> extract_pages env doc template d0 = Inr d1"
        "\<forall>d. r' = Inr d \<longrightarrow> k = length rest" by blast
      from Cons.prems item Inr rec False
      have "evs = Progress (percent (idx + 1) n) # evs'" "r = r'"
        by (simp_all add: progress_value_def)
      with k item doc ex show ?thesis by (intro exI [of _ "Suc k"]) auto
    qed
  qed
qed

lemma take_enumerate: "take j (enumerate n xs) = enumerate n (take j xs)"
proof (induction xs arbitrary: j n)
  case Nil
  then show ?case by simp
next
  case (Cons x xs)
  then show ?case by (cases j) simp_all
qed

lemma take_enumerate_progress:
  assumes "j \<le> length xs"
  shows "map (\<lambda>item. Progress (percent (fst item + 1) n)) (take j (enumerate 0 xs))
     = map (\<lambda>k. Progress (percent k n)) [1..<Suc j]"
proof -
  have "take j (enumerate 0 xs) = enumerate 0 (take j xs)"
    by (rule take_enumerate)
  then have "map (\<lambda>item. Progress (percent (fst item + 1) n)) (take j (enumerate 0 xs))
     = map (\<lambda>k. Progress (percent k n)) [1..<Suc (length (take j xs))]"
    by (simp only: enumerate_progress)
  with assms show ?thesis by (simp add: min_def)
qed

lemma set_take_enumerate:
  "p \<in> set (take j xs) \<Longrightarrow> \<exists>item\<in>set (take j (enumerate 0 xs)). snd item = p"
proof -
  assume "p \<in> set (take j xs)"
  moreover have "take j xs = map snd (take j (enumerate 0 xs))"
    by (simp add: take_map [symmetric])
  ultimately show ?thesis by auto
qed

lemma run_try_error_prefix:
  assumes "run_try env template_path pdf_paths output_path = (evs, Some e)"
  shows "\<exists>j\<le>length pdf_paths.
      evs = map (\<lambda>k. Progress (percent k (length pdf_paths))) [1..<Suc j]
      \<and> (0 < j \<longrightarrow> (\<exists>pages. json_load env template_path = Inr (JList pages)
            \<and> (\<forall>p\<in>set (take j pdf_paths). \<exists>doc d0 d1.
                  Document env p = Inr doc \<and> extract_pages env doc pages d0 = Inr d1)))"
proof (cases "\<exists>pages. json_load env template_path = Inr (JList pages) \<and> validate_pages pages = Inr ()")
  case False
  with assms have "evs = []"
    by (auto simp: run_try_def split: sum.splits prod.splits option.splits json.splits elim!: validate.elims)
  then show ?thesis by (intro exI [of _ 0]) simp
next
  case True
  then obtain pages where l: "json_load env template_path = Inr (JList pages)"
    and v: "validate_pages pages = Inr ()" by blast
  obtain ps r where pd: "process_documents env pages (length pdf_paths) (enumerate 0 pdf_paths) [] = (ps, r)"
    by (cases "process_documents env pages (length pdf_paths) (enumerate 0 pdf_paths) []")
  with assms l v have evs: "evs = ps"
    by (auto simp: run_try_def split: sum.splits option.splits)
  from process_documents_completed [OF pd] obtain j where j: "j \<le> length pdf_paths"
    and ps: "ps = map (\<lambda>item. Progress (percent (fst item + 1) (length pdf_paths))) (take j (enumerate 0 pdf_paths))"
    and c: "\<forall>item\<in>set (take j (enumerate 0 pdf_paths)). \<exists>doc d0 d1.
            Document env (snd item) = Inr doc \<and> extract_pages env doc pages d0 = Inr d1"
    by auto
  from ps j evs have "evs = map (\<lambda>k. Progress (percent k (length pdf_paths))) [1..<Suc j]"
    by (simp only: take_enumerate_progress)
  moreover from c have "\<forall>p\<in>set (take j pdf_paths). \<exists>doc d0 d1.
                  Document env p = Inr doc \<and> extract_pages env doc pages d0 = Inr d1"
    using set_take_enumerate [of _ j pdf_paths] by blast
  ultimately show ?thesis using j l by blast
qed

text \<open>
  C1, as amended. When an exception leaves the \<^verbatim>\<open>try\<close> block of a pipeline run (for
  example because a document cannot be opened), the run stops there: nothing is written to
  the output destination, and the exception is not handed to the caller as a value but
  printed to the console, once. The progress values emitted are those of the documents
  completed before it and no others: for some j, the first j documents were opened and
  their pages extracted, and the values are \<^verbatim>\<open>int(k / N * 100)\<close> for k from 1 to j.
\<close>

theorem run_error_printed:
  assumes "run_try env template_path pdf_paths output_path = (evs, Some e)"
  shows "printed (run env template_path pdf_paths output_path) = [e]
    \<and> written (run env template_path pdf_paths output_path) = []
    \<and> (\<exists>j\<le>length pdf_paths.
          progress_values (run env template_path pdf_paths output_path)
            = map (\<lambda>k. percent k (length pdf_paths)) [1..<Suc j]
          \<and> (0 < j \<longrightarrow> (\<exists>pages. json_load env template_path = Inr (JList pages)
                \<and> (\<forall>p\<in>set (take j pdf_paths). \<exists>doc d0 d1.
                      Document env p = Inr doc \<and> extract_pages env doc pages d0 = Inr d1))))"
proof -
  from run_try_error_prefix [OF assms] obtain j where j: "j \<le> length pdf_paths"
    and evs: "evs = map (\<lambda>k. Progress (percent k (length pdf_paths))) [1..<Suc j]"
    and c: "0 < j \<longrightarrow> (\<exists>pages. json_load env template_path = Inr (JList pages)
            \<and> (\<forall>p\<in>set (take j pdf_paths). \<exists>doc d0 d1.
                  Document env p = Inr doc \<and> extract_pages env doc pages d0 = Inr d1))"
    by blast
  from run_error_projections [OF assms] evs
  have "progress_values (run env template_path pdf_paths output_path)
            = map (\<lambda>k. percent k (length pdf_paths)) [1..<Suc j]"
    by (simp only: progress_values_map)
  with j c run_error_projections [OF assms] show ?thesis by blast
qed

text \<open>
  C1, witness: the second of two documents cannot be opened; the one value emitted is
  that of the first document.
\<close>

theorem run_error_printed_witness:
  "run_try ex_env ''template.json'' [''doc1.pdf'', ''missing.pdf''] ''out.xlsx''
     = ([Progress 50], Some (OtherError ''cannot open file''))
   \<and> printed (run ex_env ''template.json'' [''doc1.pdf'', ''missing.pdf''] ''out.xlsx'')
     = [OtherError ''cannot open file'']
   \<and> written (run ex_env ''template.json'' [''doc1.pdf'', ''missing.pdf''] ''out.xlsx'') = []
   \<and> progress_values (run ex_env ''template.json'' [''doc1.pdf'', ''missing.pdf''] ''out.xlsx'')
     = [percent 1 2]
   \<and> percent 1 2 = 50"
proof -
  have h: "run_try ex_env ''template.json'' [''doc1.pdf'', ''missing.pdf''] ''out.xlsx''
     = ([Progress 50], Some (OtherError ''cannot open file''))"
    by code_simp
  have p: "percent 1 2 = 50" by code_simp
  have r: "progress_values (run ex_env ''template.json'' [''doc1.pdf'', ''missing.pdf''] ''out.xlsx'') = [50]"
    by code_simp
  from run_error_printed [OF h] h p r show ?thesis by simp
qed

text \<open>
  C1, counterexample to the claim as stated: in that run the error is a console line of
  the worker, and the front end, which receives \<^verbatim>\<open>finished\<close> as after every run, reports
  that the files have been processed and saved successfully.
\<close>

theorem error_swallowed_counterexample:
  "run ex_env ''template.json'' [''doc1.pdf'', ''missing.pdf''] ''out.xlsx''
     = [Progress 50, Printed (OtherError ''cannot open file''), Finished]
   \<and> process_files ex_env ''template.json'' [''doc1.pdf'', ''missing.pdf''] ''out.xlsx''
     = [SetValue 50,
        Information ''Processing Complete'' ''The files have been processed and saved successfully.'',
        SetValue 0]"
  by code_simp

text \<open>
  C2. For every batch run, if resolving a page index of the template fails on any
  document of the batch, the run aborts with an error and no rows are written to the
  output destination, not even those of the documents already processed.
\<close>

theorem page_failure_writes_nothing:
  assumes "json_load env template_path = Inr (JList pages)"
    and "pdf_path \<in> set pdf_paths" and "Document env pdf_path = Inr doc"
    and "page_template \<in> set pages" and "py_getitem page_template ''page'' = Inr page_num"
    and "doc page_num = Inl e"
  shows "written (run env template_path pdf_paths output_path) = []
    \<and> (\<exists>e'. printed (run env template_path pdf_paths output_path) = [e'])"
proof -
  obtain evs r where rt: "run_try env template_path pdf_paths output_path = (evs, r)"
    by (cases "run_try env template_path pdf_paths output_path")
  have "r \<noteq> None"
  proof
    assume "r = None"
    with rt obtain pages' ps rows where "json_load env template_path = Inr (JList pages')"
      and pd: "process_documents env pages' (length pdf_paths) (enumerate 0 pdf_paths) [] = (ps, Inr rows)"
      using run_try_success by blast
    with assms(1) have "pages' = pages" by simp
    moreover have "pdf_path \<in> snd ` set (enumerate 0 pdf_paths)"
      using assms(2) by (metis list.set_map map_snd_enumerate)
    ultimately have "\<exists>page. doc page_num = Inr page"
      using pd assms(3,4,5) process_documents_loads by blast
    with assms(6) show False by simp
  qed
  then obtain e' where "r = Some e'" by auto
  with rt run_error_projections [of env template_path pdf_paths output_path evs e'] show ?thesis by auto
qed

text \<open>
  C2, witness: the template asks for the second page; the first document has two pages
  and is processed, the second has one.
\<close>

theorem page_failure_writes_nothing_witness:
  "json_load ex_env ''page1.json'' = Inr (JList [ex_page1_template])
   \<and> ''doc2.pdf'' \<in> set [''doc1.pdf'', ''doc2.pdf'']
   \<and> Document ex_env ''doc2.pdf'' = Inr (ex_document ''doc2'' 1)
   \<and> py_getitem ex_page1_template ''page'' = Inr (JInt 1)
   \<and> ex_document ''doc2'' 1 (JInt 1) = Inl IndexError
   \<and> run ex_env ''page1.json'' [''doc1.pdf'', ''doc2.pdf''] ''out.xlsx''
       = [Progress 50, Printed IndexError, Finished]
   \<and> written (run ex_env ''page1.json'' [''doc1.pdf'', ''doc2.pdf''] ''out.xlsx'') = []"
proof -
  have h1: "json_load ex_env ''page1.json'' = Inr (JList [ex_page1_template])"
    by (simp add: ex_env_def ex_json_load_def ex_template_page1_def)
  have h2: "''doc2.pdf'' \<in> set [''doc1.pdf'', ''doc2.pdf'']" by simp
  have h3: "Document ex_env ''doc2.pdf'' = Inr (ex_document ''doc2'' 1)"
    by (simp add: ex_env_def ex_Document_def)
  have h4: "ex_page1_template \<in> set [ex_page1_template]" by simp
  have h5: "py_getitem ex_page1_template ''page'' = Inr (JInt 1)"
    by (simp add: ex_page1_template_def)
  have h6: "ex_document ''doc2'' 1 (JInt 1) = Inl IndexError" by (simp add: ex_document_def)
  have r: "run ex_env ''page1.json'' [''doc1.pdf'', ''doc2.pdf''] ''out.xlsx''
       = [Progress 50, Printed IndexError, Finished]"
    by code_simp
  from page_failure_writes_nothing [OF h1 h2 h3 h4 h5 h6, of "''out.xlsx''"] h1 h2 h3 h5 h6 r
  show ?thesis by simp
qed

text \<open>
  C9. Validation checks only the shapes of the containers and the presence of the keys:
  every raw value that is a list of mappings each containing \<^verbatim>\<open>page\<close> and \<^verbatim>\<open>coordinates\<close>,
  where \<^verbatim>\<open>coordinates\<close> is a list of mappings each containing \<^verbatim>\<open>x\<close>, \<^verbatim>\<open>y\<close>, \<^verbatim>\<open>width\<close> and
  \<^verbatim>\<open>height\<close>, is accepted, whatever the values of those fields are. A run with such a
  template therefore goes on to the loop over the documents, and an error of a field value
  can only be the error that ends this loop.
\<close>

theorem validation_ignores_value_types:
  assumes "well_shaped raw"
  shows "validate raw = Inr ()
    \<and> (json_load env template_path = Inr raw \<longrightarrow>
         run_try env template_path pdf_paths output_path =
           (case process_documents env (elements raw) (length pdf_paths) (enumerate 0 pdf_paths) [] of
              (evs, Inl e) \<Rightarrow> (evs, Some e)
            | (evs, Inr data) \<Rightarrow>
                (case to_excel env output_path data of
                   Some e \<Rightarrow> (evs, Some e)
                 | None \<Rightarrow> (evs @ [Wrote output_path data], None))))"
proof -
  from assms have v: "validate raw = Inr ()" by (rule well_shaped_validate)
  from assms have "py_iter raw = Inr (elements raw)" by (cases raw) (simp_all add: well_shaped_def)
  with v show ?thesis by (simp add: run_try_def)
qed

text \<open>
  C9, witness: a template with a string for a width, a string for a page and a negative
  page is accepted; the error of the width ends the loop at the first region.
\<close>

theorem validation_ignores_value_types_witness:
  "well_shaped ex_template_untyped \<and> validate ex_template_untyped = Inr ()
   \<and> json_load ex_env ''untyped.json'' = Inr ex_template_untyped
   \<and> process_documents ex_env (elements ex_template_untyped) 1 (enumerate 0 [''doc1.pdf'']) []
       = ([], Inl TypeError)
   \<and> run_try ex_env ''untyped.json'' [''doc1.pdf''] ''out.xlsx'' = ([], Some TypeError)
   \<and> run ex_env ''untyped.json'' [''doc1.pdf''] ''out.xlsx'' = [Printed TypeError, Finished]"
proof -
  have h: "well_shaped ex_template_untyped" by (simp add: well_shaped_def ex_template_untyped_def)
  have j: "json_load ex_env ''untyped.json'' = Inr ex_template_untyped"
    by (simp add: ex_env_def ex_json_load_def)
  have p: "process_documents ex_env (elements ex_template_untyped) 1 (enumerate 0 [''doc1.pdf'']) []
       = ([], Inl TypeError)"
    by code_simp
  have r: "run ex_env ''untyped.json'' [''doc1.pdf''] ''out.xlsx'' = [Printed TypeError, Finished]"
    by code_simp
  from validation_ignores_value_types [OF h, of ex_env "''untyped.json''" "[''doc1.pdf'']" "''out.xlsx''"] j p
  have "validate ex_template_untyped = Inr ()
    \<and> run_try ex_env ''untyped.json'' [''doc1.pdf''] ''out.xlsx'' = ([], Some TypeError)"
    by simp
  with h j p r show ?thesis by blast
qed

text \<open>
  C4. For every run that writes its rows, over a sequence of documents and a validated
  template, the rows are in document order (outer), template-page order (middle) and
  region order (inner), with exactly one empty string after the rows of each document. In
  particular two documents and a template of one page with two regions give exactly six
  rows: the two regions of the first document, an empty string, the two regions of the
  second document, an empty string.
\<close>

theorem rows_in_order:
  assumes "Wrote out rows \<in> set (run env template_path pdf_paths output_path)"
  shows "\<exists>pages. json_load env template_path = Inr (JList pages)
     \<and> validate (JList pages) = Inr ()
     \<and> map Inr rows = ordered_rows env pages pdf_paths
     \<and> (\<forall>p1 p2 pt a1 a2.
          pdf_paths = [p1, p2] \<and> pages = [pt] \<and> template_areas pt = [a1, a2] \<longrightarrow>
          map Inr rows = [region_row env p1 pt a1, region_row env p1 pt a2, Inr '''',
                          region_row env p2 pt a1, region_row env p2 pt a2, Inr ''''])"
proof -
  from run_wrote [OF assms] obtain pages ps where l: "json_load env template_path = Inr (JList pages)"
    and v: "validate_pages pages = Inr ()"
    and pd: "process_documents env pages (length pdf_paths) (enumerate 0 pdf_paths) [] = (ps, Inr rows)"
    by blast
  from v have "list_all (\<lambda>p. validate_page p = Inr ()) pages" by (simp add: validate_pages_Inr)
  from process_documents_rows [OF this pd]
  have rows: "map Inr rows = ordered_rows env pages pdf_paths" by (simp add: map_snd_enumerate)
  then have "\<forall>p1 p2 pt a1 a2.
          pdf_paths = [p1, p2] \<and> pages = [pt] \<and> template_areas pt = [a1, a2] \<longrightarrow>
          map Inr rows = [region_row env p1 pt a1, region_row env p1 pt a2, Inr '''',
                          region_row env p2 pt a1, region_row env p2 pt a2, Inr '''']"
    by (simp add: ordered_rows_def document_rows_def)
  with l v rows show ?thesis by auto
qed

text \<open>
  C4, witness: two documents and the template of one page with two regions.
\<close>

theorem rows_in_order_witness:
  "Wrote ''out.xlsx'' [''doc1-region1'', ''doc1-region2'', '''', ''doc2-region1'', ''doc2-region2'', '''']
     \<in> set (run ex_env ''template.json'' [''doc1.pdf'', ''doc2.pdf''] ''out.xlsx'')
   \<and> json_load ex_env ''template.json'' = Inr (JList [ex_page_template])
   \<and> template_areas ex_page_template = [ex_area1, ex_area2]
   \<and> map Inr [''doc1-region1'', ''doc1-region2'', '''', ''doc2-region1'', ''doc2-region2'', '''']
       = [region_row ex_env ''doc1.pdf'' ex_page_template ex_area1,
          region_row ex_env ''doc1.pdf'' ex_page_template ex_area2, Inr '''',
          region_row ex_env ''doc2.pdf'' ex_page_template ex_area1,
          region_row ex_env ''doc2.pdf'' ex_page_template ex_area2, Inr '''']"
proof -
  have h: "Wrote ''out.xlsx'' [''doc1-region1'', ''doc1-region2'', '''', ''doc2-region1'', ''doc2-region2'', '''']
     \<in> set (run ex_env ''template.json'' [''doc1.pdf'', ''doc2.pdf''] ''out.xlsx'')"
    by code_simp
  have j: "json_load ex_env ''template.json'' = Inr (JList [ex_page_template])"
    by (simp add: ex_env_def ex_json_load_def ex_template_def)
  have a: "template_areas ex_page_template = [ex_area1, ex_area2]"
    by (simp add: template_areas_def ex_page_template_def)
  from rows_in_order [OF h] j a
  have "map Inr [''doc1-region1'', ''doc1-region2'', '''', ''doc2-region1'', ''doc2-region2'', '''']
       = [region_row ex_env ''doc1.pdf'' ex_page_template ex_area1,
          region_row ex_env ''doc1.pdf'' ex_page_template ex_area2, Inr '''',
          region_row ex_env ''doc2.pdf'' ex_page_template ex_area1,
          region_row ex_env ''doc2.pdf'' ex_page_template ex_area2, Inr '''']"
    by auto
  with h j a show ?thesis by blast
qed

lemma sorted_percent: "sorted (map (\<lambda>k. percent k n) [i..<j])"
  by (auto simp: sorted_map intro!: sorted_wrt_mono_rel [OF _ sorted_upt [of i j]] percent_mono)

text \<open>
  C5, as amended. For every run over N documents that writes its rows, the progress
  signal is emitted exactly N times, once after each document, and the value after the
  k-th document is \<^verbatim>\<open>int(k / N * 100)\<close>: the double nearest to k / N, times 100 in doubles,
  truncated, not rounded. The values are non-decreasing and the last one is exactly 100.
\<close>

theorem progress_truncated:
  assumes "Wrote out rows \<in> set (run env template_path pdf_paths output_path)"
  shows "progress_values (run env template_path pdf_paths output_path)
       = map (\<lambda>k. percent k (length pdf_paths)) [1..<Suc (length pdf_paths)]
     \<and> length (progress_values (run env template_path pdf_paths output_path)) = length pdf_paths
     \<and> sorted (progress_values (run env template_path pdf_paths output_path))
     \<and> (pdf_paths \<noteq> [] \<longrightarrow> last (progress_values (run env template_path pdf_paths output_path)) = 100)"
proof -
  let ?n = "length pdf_paths"
  from run_wrote [OF assms] obtain pages ps where
    pd: "process_documents env pages ?n (enumerate 0 pdf_paths) [] = (ps, Inr rows)"
    and r: "run env template_path pdf_paths output_path = ps @ [Wrote output_path rows, Finished]"
    by blast
  from process_documents_events [OF pd]
  have "ps = map (\<lambda>item. Progress (percent (fst item + 1) ?n)) (enumerate 0 pdf_paths)" by auto
  then have "ps = map (\<lambda>k. Progress (percent k ?n)) [1..<Suc ?n]" by (simp only: enumerate_progress)
  with r have pv: "progress_values (run env template_path pdf_paths output_path)
       = map (\<lambda>k. percent k ?n) [1..<Suc ?n]"
    by (simp add: progress_values_append progress_values_map)
  have "pdf_paths \<noteq> [] \<longrightarrow> last (map (\<lambda>k. percent k ?n) [1..<Suc ?n]) = 100"
    by (auto simp: last_map percent_full simp del: upt_Suc)
  with pv sorted_percent [of ?n 1 "Suc ?n"] show ?thesis by (simp del: upt_Suc)
qed

text \<open>
  C5, witness: three documents give 33, 66 and 100.
\<close>

theorem progress_truncated_witness:
  "Wrote ''out.xlsx'' [''doc1-region1'', ''doc1-region2'', '''', ''doc2-region1'', ''doc2-region2'', '''',
                      ''doc3-region1'', ''doc3-region2'', '''']
     \<in> set (run ex_env ''template.json'' [''doc1.pdf'', ''doc2.pdf'', ''doc3.pdf''] ''out.xlsx'')
   \<and> progress_values (run ex_env ''template.json'' [''doc1.pdf'', ''doc2.pdf'', ''doc3.pdf''] ''out.xlsx'')
       = [percent 1 3, percent 2 3, percent 3 3]
   \<and> [percent 1 3, percent 2 3, percent 3 3] = [33, 66, 100]
   \<and> [''doc1.pdf'', ''doc2.pdf'', ''doc3.pdf''] \<noteq> []
   \<and> last (progress_values (run ex_env ''template.json'' [''doc1.pdf'', ''doc2.pdf'', ''doc3.pdf''] ''out.xlsx''))
       = 100"
proof -
  have h: "Wrote ''out.xlsx'' [''doc1-region1'', ''doc1-region2'', '''', ''doc2-region1'', ''doc2-region2'', '''',
                      ''doc3-region1'', ''doc3-region2'', '''']
     \<in> set (run ex_env ''template.json'' [''doc1.pdf'', ''doc2.pdf'', ''doc3.pdf''] ''out.xlsx'')"
    by code_simp
  have p: "[percent 1 3, percent 2 3, percent 3 3] = [33, 66, 100]" by code_simp
  have l: "length [''doc1.pdf'', ''doc2.pdf'', ''doc3.pdf''] = 3" by simp
  have u: "[1..<Suc 3] = [1, 2, 3]" by code_simp
  have n: "[''doc1.pdf'', ''doc2.pdf'', ''doc3.pdf''] \<noteq> []" by simp
  from progress_truncated [OF h] have "progress_values (run ex_env ''template.json'' [''doc1.pdf'', ''doc2.pdf'', ''doc3.pdf''] ''out.xlsx'')
       = map (\<lambda>k. percent k (length [''doc1.pdf'', ''doc2.pdf'', ''doc3.pdf'']))
           [1..<Suc (length [''doc1.pdf'', ''doc2.pdf'', ''doc3.pdf''])]" by blast
  then have v: "progress_values (run ex_env ''template.json'' [''doc1.pdf'', ''doc2.pdf'', ''doc3.pdf''] ''out.xlsx'')
       = [percent 1 3, percent 2 3, percent 3 3]" by (simp only: l u list.map)
  from progress_truncated [OF h] n
  have "last (progress_values (run ex_env ''template.json'' [''doc1.pdf'', ''doc2.pdf'', ''doc3.pdf''] ''out.xlsx''))
       = 100" by blast
  with h v p n show ?thesis by blast
qed

text \<open>
  C5, counterexample to the claim as stated: after the second of three documents the
  value is 66, and 100 * 2 / 3 rounds to 67.
\<close>

theorem progress_round_counterexample:
  "run ex_env ''template.json'' [''doc1.pdf'', ''doc2.pdf'', ''doc3.pdf''] ''out.xlsx''
     = [Progress 33, Progress 66, Progress 100,
        Wrote ''out.xlsx'' [''doc1-region1'', ''doc1-region2'', '''', ''doc2-region1'', ''doc2-region2'', '''',
                           ''doc3-region1'', ''doc3-region2'', ''''],
        Finished]
   \<and> round (100 * 2 / 3 :: rat) = 67"
  by code_simp

section \<open>The editor\<close>

lemma show_page_selected_areas: "show_page fmul st = Inr st' \<Longrightarrow> selected_areas st' = selected_areas st"
  by (auto simp: show_page_def split: option.splits if_splits)

lemma show_page_redraws:
  assumes "show_page fmul st = Inr st'" and "scene_pixmap st' \<noteq> scene_pixmap st"
  shows "scene_pixmap st' = Some (current_page_index st)
    \<and> rect_items st' = map (scaled_rect fmul (scale_factor st)) (selected_areas st)
    \<and> scene_labels st' = map (\<lambda>index. int index + 1) [0..<length (selected_areas st)]"
  using assms by (auto simp: show_page_def split: option.splits if_splits)

lemma show_page_current_page_index:
  "show_page fmul st = Inr st' \<Longrightarrow> current_page_index st' = current_page_index st"
  by (auto simp: show_page_def split: option.splits if_splits)

lemma prev_page_selected_areas: "prev_page fmul st = Inr st' \<Longrightarrow> selected_areas st' = selected_areas st"
  by (auto simp: prev_page_def dest: show_page_selected_areas split: if_splits)

lemma next_page_selected_areas: "next_page fmul st = Inr st' \<Longrightarrow> selected_areas st' = selected_areas st"
  by (auto simp: next_page_def dest: show_page_selected_areas split: option.splits if_splits)

lemma navigate_selected_areas:
  "navigate fmul st navs = Inr st' \<Longrightarrow> selected_areas st' = selected_areas st"
proof (induction navs arbitrary: st)
  case Nil
  then show ?case by simp
next
  case (Cons nav navs)
  show ?case
  proof (cases nav)
    case Prev
    with Cons.prems obtain st1 where 1: "prev_page fmul st = Inr st1" and 2: "navigate fmul st1 navs = Inr st'"
      by (auto simp: bind_def split: sum.splits)
    from Cons.IH [OF 2] prev_page_selected_areas [OF 1] show ?thesis by simp
  next
    case Next
    with Cons.prems obtain st1 where 1: "next_page fmul st = Inr st1" and 2: "navigate fmul st1 navs = Inr st'"
      by (auto simp: bind_def split: sum.splits)
    from Cons.IH [OF 2] next_page_selected_areas [OF 1] show ?thesis by simp
  qed
qed

lemma ex_next_page:
  "next_page ex_mul ex_editor = Inr (ex_editor\<lparr>current_page_index := 1, scene_pixmap := Some 1\<rparr>)"
  by (simp add: next_page_def show_page_def ex_editor_def ex_gui_document_def ex_render_def
      scaled_rect_def ex_mul_def ex_rect1_def ex_rect2_def ex_rect3_def upt_rec)

lemma show_page_lists_agree: "lists_agree st \<Longrightarrow> show_page fmul st = Inr st' \<Longrightarrow> lists_agree st'"
  by (auto simp: show_page_def lists_agree_def split: option.splits if_splits)

lemma prev_page_lists_agree: "lists_agree st \<Longrightarrow> prev_page fmul st = Inr st' \<Longrightarrow> lists_agree st'"
proof -
  assume a: "lists_agree st" and p: "prev_page fmul st = Inr st'"
  from a have "lists_agree (st\<lparr>current_page_index := current_page_index st - 1\<rparr>)"
    by (simp add: lists_agree_def)
  with a p show ?thesis
    by (auto simp: prev_page_def dest: show_page_lists_agree split: if_splits)
qed

lemma next_page_lists_agree: "lists_agree st \<Longrightarrow> next_page fmul st = Inr st' \<Longrightarrow> lists_agree st'"
proof -
  assume a: "lists_agree st" and p: "next_page fmul st = Inr st'"
  from a have "lists_agree (st\<lparr>current_page_index := current_page_index st + 1\<rparr>)"
    by (simp add: lists_agree_def)
  with a p show ?thesis
    by (auto simp: next_page_def dest: show_page_lists_agree split: option.splits if_splits)
qed

lemma mouse_release_lists_agree:
  "lists_agree st \<Longrightarrow> mouse_release fdiv st rect = Inr st' \<Longrightarrow> lists_agree st'"
  by (auto simp: mouse_release_def lists_agree_def bind_def Let_def split: sum.splits)

lemma remove_rect_lists_agree:
  assumes "lists_agree st" and "remove_rect fmul st index = Inr st'"
  shows "lists_agree st'"
proof (cases "0 \<le> index \<and> index < int (length (rect_items st))")
  case False
  with assms show ?thesis by (auto simp: remove_rect_def)
next
  case True
  with assms(1) have i: "nat index < length (selected_areas st)" by (auto simp: lists_agree_def)
  from assms(1) i
  have "lists_agree (st\<lparr>rect_items := del_item (nat index) (rect_items st),
                          selected_areas := del_item (nat index) (selected_areas st)\<rparr>)"
    by (simp add: lists_agree_def del_item_def)
  moreover from True i assms(2)
  have "show_page fmul (st\<lparr>rect_items := del_item (nat index) (rect_items st),
                              selected_areas := del_item (nat index) (selected_areas st)\<rparr>) = Inr st'"
    by (simp add: remove_rect_def)
  ultimately show ?thesis by (rule show_page_lists_agree)
qed

text \<open>
  C8, as amended. The region collection is not scoped to the displayed page: when the
  previous or the next page is shown, the collection of selected regions is unchanged,
  and when the displayed page changes every region of the collection is drawn again, with
  its label, on the newly displayed page.
\<close>

theorem page_change_keeps_regions:
  "(prev_page fmul st = Inr st' \<longrightarrow>
      selected_areas st' = selected_areas st
      \<and> (scene_pixmap st' \<noteq> scene_pixmap st \<longrightarrow>
           scene_pixmap st' = Some (current_page_index st')
           \<and> rect_items st' = map (scaled_rect fmul (scale_factor st)) (selected_areas st)
           \<and> scene_labels st' = map (\<lambda>index. int index + 1) [0..<length (selected_areas st)]))
   \<and> (next_page fmul st = Inr st' \<longrightarrow>
      selected_areas st' = selected_areas st
      \<and> (scene_pixmap st' \<noteq> scene_pixmap st \<longrightarrow>
           scene_pixmap st' = Some (current_page_index st')
           \<and> rect_items st' = map (scaled_rect fmul (scale_factor st)) (selected_areas st)
           \<and> scene_labels st' = map (\<lambda>index. int index + 1) [0..<length (selected_areas st)]))"
proof (intro conjI impI)
  assume p: "prev_page fmul st = Inr st'"
  then show "selected_areas st' = selected_areas st" by (rule prev_page_selected_areas)
  assume c: "scene_pixmap st' \<noteq> scene_pixmap st"
  from p c have s: "show_page fmul (st\<lparr>current_page_index := current_page_index st - 1\<rparr>) = Inr st'"
    by (auto simp: prev_page_def split: if_splits)
  from show_page_redraws [OF s] c show_page_current_page_index [OF s]
  show "scene_pixmap st' = Some (current_page_index st')"
    and "rect_items st' = map (scaled_rect fmul (scale_factor st)) (selected_areas st)"
    and "scene_labels st' = map (\<lambda>index. int index + 1) [0..<length (selected_areas st)]"
    by simp_all
next
  assume p: "next_page fmul st = Inr st'"
  then show "selected_areas st' = selected_areas st" by (rule next_page_selected_areas)
  assume c: "scene_pixmap st' \<noteq> scene_pixmap st"
  from p c have s: "show_page fmul (st\<lparr>current_page_index := current_page_index st + 1\<rparr>) = Inr st'"
    by (auto simp: next_page_def split: option.splits if_splits)
  from show_page_redraws [OF s] c show_page_current_page_index [OF s]
  show "scene_pixmap st' = Some (current_page_index st')"
    and "rect_items st' = map (scaled_rect fmul (scale_factor st)) (selected_areas st)"
    and "scene_labels st' = map (\<lambda>index. int index + 1) [0..<length (selected_areas st)]"
    by simp_all
qed

text \<open>
  C8, witness: from the first page to the second and back, with three regions.
\<close>

theorem page_change_keeps_regions_witness:
  "next_page ex_mul ex_editor = Inr (ex_editor\<lparr>current_page_index := 1, scene_pixmap := Some 1\<rparr>)
   \<and> selected_areas (ex_editor\<lparr>current_page_index := 1, scene_pixmap := Some 1\<rparr>) = selected_areas ex_editor
   \<and> prev_page ex_mul (ex_editor\<lparr>current_page_index := 1, scene_pixmap := Some 1\<rparr>) = Inr ex_editor
   \<and> rect_items ex_editor = map (scaled_rect ex_mul 1) [ex_rect1, ex_rect2, ex_rect3]"
proof -
  let ?st1 = "ex_editor\<lparr>current_page_index := 1, scene_pixmap := Some 1\<rparr>"
  have n: "next_page ex_mul ex_editor = Inr ?st1" by (rule ex_next_page)
  have p: "prev_page ex_mul ?st1 = Inr ex_editor"
    by (simp add: prev_page_def show_page_def ex_editor_def ex_gui_document_def ex_render_def
      scaled_rect_def ex_mul_def ex_rect1_def ex_rect2_def ex_rect3_def upt_rec)
  have c: "scene_pixmap ex_editor \<noteq> scene_pixmap ?st1" by (simp add: ex_editor_def)
  from page_change_keeps_regions [of ex_mul ex_editor ?st1] n
  have 1: "selected_areas ?st1 = selected_areas ex_editor" by blast
  from page_change_keeps_regions [of ex_mul ?st1 ex_editor] p c
  have "rect_items ex_editor = map (scaled_rect ex_mul (scale_factor ?st1)) (selected_areas ?st1)" by blast
  then have 2: "rect_items ex_editor = map (scaled_rect ex_mul 1) [ex_rect1, ex_rect2, ex_rect3]"
    by (simp add: ex_editor_def)
  from n 1 p 2 show ?thesis by blast
qed

text \<open>
  C8, counterexample to the claim as stated: three regions are selected while the first
  page is displayed; after the next page is displayed the collection still holds the three
  regions and they are drawn on it.
\<close>

theorem regions_survive_page_change_counterexample:
  "next_page ex_mul ex_editor = Inr (ex_editor\<lparr>current_page_index := 1, scene_pixmap := Some 1\<rparr>)
   \<and> scene_pixmap ex_editor = Some 0
   \<and> selected_areas (ex_editor\<lparr>current_page_index := 1, scene_pixmap := Some 1\<rparr>)
       = [ex_rect1, ex_rect2, ex_rect3]
   \<and> rect_items (ex_editor\<lparr>current_page_index := 1, scene_pixmap := Some 1\<rparr>)
       = [ex_rect1, ex_rect2, ex_rect3]"
  using ex_next_page by (simp add: ex_editor_def)

lemma nth_del_item:
  "i < j \<Longrightarrow> j < length xs \<Longrightarrow> del_item i xs ! (j - 1) = xs ! j"
  by (auto simp: del_item_def nth_append min_def)

lemma length_del_item: "i < length xs \<Longrightarrow> length (del_item i xs) = length xs - 1"
  by (auto simp: del_item_def)

lemma remove_rect_cases:
  "(index < 0 \<or> int (length (rect_items st)) \<le> index \<longrightarrow> remove_rect fmul st index = Inr st)
   \<and> (0 \<le> index \<and> index < int (length (rect_items st))
       \<and> length (rect_items st) = length (selected_areas st)
       \<and> scene_labels st = map (\<lambda>i. int i + 1) [0..<length (selected_areas st)]
       \<and> pdf_document st = Some doc \<and> 0 < doc_len doc
       \<and> doc_render doc (current_page_index st) = None \<longrightarrow>
       (\<exists>st'. remove_rect fmul st index = Inr st'
          \<and> selected_areas st' = take (nat index) (selected_areas st) @ drop (Suc (nat index)) (selected_areas st)
          \<and> length (selected_areas st') = length (selected_areas st) - 1
          \<and> scene_labels st' = map (\<lambda>i. int i + 1) [0..<length (selected_areas st')]
          \<and> map fst (rect_list st') = scene_labels st'
          \<and> (\<forall>j. nat index < j \<and> j < length (selected_areas st) \<longrightarrow>
                selected_areas st' ! (j - 1) = selected_areas st ! j
                \<and> scene_labels st' ! (j - 1) = scene_labels st ! j - 1)))"
proof (intro conjI impI)
  assume "index < 0 \<or> int (length (rect_items st)) \<le> index"
  then show "remove_rect fmul st index = Inr st" by (auto simp: remove_rect_def)
next
  assume a: "0 \<le> index \<and> index < int (length (rect_items st))
       \<and> length (rect_items st) = length (selected_areas st)
       \<and> scene_labels st = map (\<lambda>i. int i + 1) [0..<length (selected_areas st)]
       \<and> pdf_document st = Some doc \<and> 0 < doc_len doc
       \<and> doc_render doc (current_page_index st) = None"
  let ?i = "nat index"
  let ?areas = "del_item ?i (selected_areas st)"
  let ?st' = "st\<lparr>rect_items := map (scaled_rect fmul (scale_factor st)) ?areas,
                 selected_areas := ?areas,
                 scene_pixmap := Some (current_page_index st),
                 scene_labels := map (\<lambda>index. int index + 1) [0..<length ?areas],
                 rect_list := map (\<lambda>index. (int index + 1, int index)) [0..<length ?areas]\<rparr>"
  from a have i: "?i < length (selected_areas st)" by auto
  from a i have r: "remove_rect fmul st index = Inr ?st'"
    by (simp add: remove_rect_def show_page_def)
  have len: "length ?areas = length (selected_areas st) - 1" using i by (rule length_del_item)
  have nth: "\<forall>j. ?i < j \<and> j < length (selected_areas st) \<longrightarrow>
                selected_areas ?st' ! (j - 1) = selected_areas st ! j
                \<and> scene_labels ?st' ! (j - 1) = scene_labels st ! j - 1"
  proof (intro allI impI)
    fix j
    assume j: "?i < j \<and> j < length (selected_areas st)"
    then have "selected_areas ?st' ! (j - 1) = selected_areas st ! j"
      using nth_del_item [of ?i j "selected_areas st"] by simp
    moreover from j len have "j - 1 < length ?areas" by linarith
    then have "scene_labels ?st' ! (j - 1) = int (j - 1) + 1" by simp
    moreover from j a have "scene_labels st ! j = int j + 1" by simp
    ultimately show "selected_areas ?st' ! (j - 1) = selected_areas st ! j
                \<and> scene_labels ?st' ! (j - 1) = scene_labels st ! j - 1"
      using j by simp
  qed
  have "map fst (rect_list ?st') = scene_labels ?st'" by (simp add: comp_def)
  with r len nth
  show "\<exists>st'. remove_rect fmul st index = Inr st'
          \<and> selected_areas st' = take (nat index) (selected_areas st) @ drop (Suc (nat index)) (selected_areas st)
          \<and> length (selected_areas st') = length (selected_areas st) - 1
          \<and> scene_labels st' = map (\<lambda>i. int i + 1) [0..<length (selected_areas st')]
          \<and> map fst (rect_list st') = scene_labels st'
          \<and> (\<forall>j. nat index < j \<and> j < length (selected_areas st) \<longrightarrow>
                selected_areas st' ! (j - 1) = selected_areas st ! j
                \<and> scene_labels st' ! (j - 1) = scene_labels st ! j - 1)"
    by (intro exI [of _ ?st']) (simp add: del_item_def)
qed

lemma remove_rect_deletes:
  assumes "0 \<le> index" and "index < int (length (rect_items st))"
    and "length (rect_items st) = length (selected_areas st)"
    and "remove_rect fmul st index = Inr st2"
  shows "selected_areas st2 = take (nat index) (selected_areas st) @ drop (Suc (nat index)) (selected_areas st)"
proof -
  from assms(1-3) have i: "nat index < length (selected_areas st)" by auto
  with assms have "show_page fmul (st\<lparr>rect_items := del_item (nat index) (rect_items st),
                              selected_areas := del_item (nat index) (selected_areas st)\<rparr>) = Inr st2"
    by (simp add: remove_rect_def)
  from show_page_selected_areas [OF this] show ?thesis by (simp add: del_item_def)
qed

text \<open>
  C7, as amended. For every region collection and every index that is out of bounds
  (negative, or not below the number of regions) \<^verbatim>\<open>remove_rect\<close> does nothing: no
  \<^verbatim>\<open>IndexError\<close> is raised and the collection is unchanged. For every index in bounds it
  deletes that element, and when a document is open, so that the page is shown again, the
  labels are recomputed from the positions: the label of every later element decreases by
  one.
\<close>

theorem remove_rect_renumbers:
  "(index < 0 \<or> int (length (rect_items st)) \<le> index \<longrightarrow> remove_rect fmul st index = Inr st)
   \<and> (0 \<le> index \<and> index < int (length (rect_items st))
       \<and> length (rect_items st) = length (selected_areas st)
       \<and> scene_labels st = map (\<lambda>i. int i + 1) [0..<length (selected_areas st)]
       \<and> pdf_document st = Some doc \<and> 0 < doc_len doc
       \<and> doc_render doc (current_page_index st) = None \<longrightarrow>
       (\<exists>st'. remove_rect fmul st index = Inr st'
          \<and> selected_areas st' = take (nat index) (selected_areas st) @ drop (Suc (nat index)) (selected_areas st)
          \<and> length (selected_areas st') = length (selected_areas st) - 1
          \<and> scene_labels st' = map (\<lambda>i. int i + 1) [0..<length (selected_areas st')]
          \<and> map fst (rect_list st') = scene_labels st'
          \<and> (\<forall>j. nat index < j \<and> j < length (selected_areas st) \<longrightarrow>
                selected_areas st' ! (j - 1) = selected_areas st ! j
                \<and> scene_labels st' ! (j - 1) = scene_labels st ! j - 1)))
   \<and> (0 \<le> index \<and> index < int (length (rect_items st))
       \<and> length (rect_items st) = length (selected_areas st)
       \<and> remove_rect fmul st index = Inr st2 \<longrightarrow>
       selected_areas st2 = take (nat index) (selected_areas st) @ drop (Suc (nat index)) (selected_areas st)
       \<and> length (rect_items st2) = length (selected_areas st2))"
proof -
  have c: "0 \<le> index \<and> index < int (length (rect_items st))
       \<and> length (rect_items st) = length (selected_areas st)
       \<and> remove_rect fmul st index = Inr st2 \<longrightarrow>
       selected_areas st2 = take (nat index) (selected_areas st) @ drop (Suc (nat index)) (selected_areas st)
       \<and> length (rect_items st2) = length (selected_areas st2)"
    using remove_rect_deletes [of index st fmul st2] remove_rect_lists_agree [of st fmul index st2]
    by (auto simp: lists_agree_def)
  from remove_rect_cases [of index st fmul doc] c show ?thesis by (iprover intro: conjI elim: conjE)
qed

text \<open>
  C7, witness: with regions A, B, C, removing index 3 changes nothing, and removing
  index 0 leaves B, C with the labels 1, 2.
\<close>

theorem remove_rect_renumbers_witness:
  "remove_rect ex_mul ex_editor 3 = Inr ex_editor
   \<and> remove_rect ex_mul ex_editor 0 = Inr ex_editor_removed
   \<and> selected_areas ex_editor = [ex_rect1, ex_rect2, ex_rect3] \<and> scene_labels ex_editor = [1, 2, 3]
   \<and> selected_areas ex_editor_removed = [ex_rect2, ex_rect3] \<and> scene_labels ex_editor_removed = [1, 2]"
proof -
  note inst = remove_rect_renumbers
    [where index = 0 and st = ex_editor and fmul = ex_mul and doc = ex_gui_document
       and ?st2.0 = ex_editor_removed]
  have h1: "(3::int) < 0 \<or> int (length (rect_items ex_editor)) \<le> 3" by (simp add: ex_editor_def)
  have h2: "(0::int) \<le> 0 \<and> 0 < int (length (rect_items ex_editor))
       \<and> length (rect_items ex_editor) = length (selected_areas ex_editor)
       \<and> scene_labels ex_editor = map (\<lambda>i. int i + 1) [0..<length (selected_areas ex_editor)]
       \<and> pdf_document ex_editor = Some ex_gui_document \<and> 0 < doc_len ex_gui_document
       \<and> doc_render ex_gui_document (current_page_index ex_editor) = None"
    by (simp add: ex_editor_def ex_gui_document_def ex_render_def upt_rec)
  have r: "remove_rect ex_mul ex_editor 0 = Inr ex_editor_removed"
    by (simp add: remove_rect_def show_page_def del_item_def ex_editor_removed_def ex_editor_def
        ex_gui_document_def ex_render_def scaled_rect_def ex_mul_def ex_rect2_def ex_rect3_def upt_rec)
  have h3: "(0::int) \<le> 0 \<and> 0 < int (length (rect_items ex_editor))
       \<and> length (rect_items ex_editor) = length (selected_areas ex_editor)
       \<and> remove_rect ex_mul ex_editor 0 = Inr ex_editor_removed"
    using r by (simp add: ex_editor_def)
  from remove_rect_renumbers
    [where index = 3 and st = ex_editor and fmul = ex_mul and doc = ex_gui_document
       and ?st2.0 = ex_editor, THEN conjunct1, THEN mp, OF h1]
  have 1: "remove_rect ex_mul ex_editor 3 = Inr ex_editor" .
  from inst [THEN conjunct2, THEN conjunct1, THEN mp, OF h2] r
  have 2: "scene_labels ex_editor_removed = map (\<lambda>i. int i + 1) [0..<length (selected_areas ex_editor_removed)]"
    by auto
  from inst [THEN conjunct2, THEN conjunct2, THEN mp, OF h3]
  have "selected_areas ex_editor_removed
      = take (nat 0) (selected_areas ex_editor) @ drop (Suc (nat 0)) (selected_areas ex_editor)"
    by (rule conjunct1)
  then have 3: "selected_areas ex_editor_removed = [ex_rect2, ex_rect3]"
    by (simp add: ex_editor_def)
  from 2 3 have "scene_labels ex_editor_removed = [1, 2]" by (simp add: upt_rec)
  with 1 r 3 show ?thesis by (simp add: ex_editor_def)
qed

text \<open>
  C7, counterexample to the claim as stated: with three regions, removing index 3 or
  index - 1 returns normally and leaves the editor as it was.
\<close>

theorem remove_rect_no_index_error_counterexample:
  "remove_rect ex_mul ex_editor 3 = Inr ex_editor \<and> remove_rect ex_mul ex_editor (- 1) = Inr ex_editor
   \<and> length (selected_areas ex_editor) = 3"
  by (simp add: remove_rect_def ex_editor_def)

lemma mouse_release_selected_areas:
  assumes "mouse_release fdiv st rect = Inr st1"
  shows "\<exists>original. selected_areas st1 = selected_areas st @ [original]"
  using assms by (auto simp: mouse_release_def bind_def Let_def split: sum.splits)

text \<open>
  C10. Every template produced by \<^verbatim>\<open>save_template\<close> has exactly one page entry; its
  \<^verbatim>\<open>page\<close> is the index of the page displayed and its \<^verbatim>\<open>coordinates\<close> lists every region
  of the collection, in order. A region drawn before any sequence of page changes is
  still in the template saved afterwards, under the index of the page displayed at the
  time of saving, so no template of several pages can be made with the editor.
\<close>

theorem save_template_single_page:
  "(\<exists>entry. template_data st = JList [entry]
      \<and> py_getitem entry ''page'' = Inr (JInt (current_page_index st))
      \<and> py_getitem entry ''coordinates'' = Inr (JList (map area_json (selected_areas st))))
   \<and> (file_path \<noteq> [] \<longrightarrow> save_template st file_path = Some (file_path, template_data st))
   \<and> (mouse_release fdiv st rect = Inr st1 \<and> navigate fmul st1 navs = Inr st2 \<longrightarrow>
        (\<exists>original. selected_areas st1 = selected_areas st @ [original]
           \<and> template_data st2 =
               JList [JDict [(''page'', JInt (current_page_index st2)),
                             (''coordinates'',
                              JList (map area_json (selected_areas st) @ [area_json original]))]]))"
proof (intro conjI impI)
  show "\<exists>entry. template_data st = JList [entry]
      \<and> py_getitem entry ''page'' = Inr (JInt (current_page_index st))
      \<and> py_getitem entry ''coordinates'' = Inr (JList (map area_json (selected_areas st)))"
    by (simp add: template_data_def)
next
  assume "file_path \<noteq> []"
  then show "save_template st file_path = Some (file_path, template_data st)"
    by (simp add: save_template_def)
next
  assume a: "mouse_release fdiv st rect = Inr st1 \<and> navigate fmul st1 navs = Inr st2"
  then obtain original where o: "selected_areas st1 = selected_areas st @ [original]"
    using mouse_release_selected_areas by blast
  from a have "selected_areas st2 = selected_areas st1" by (auto dest: navigate_selected_areas)
  with o show "\<exists>original. selected_areas st1 = selected_areas st @ [original]
           \<and> template_data st2 =
               JList [JDict [(''page'', JInt (current_page_index st2)),
                             (''coordinates'',
                              JList (map area_json (selected_areas st) @ [area_json original]))]]"
    by (simp add: template_data_def)
qed

text \<open>
  C10, witness: a region is drawn on the first page at scale 2, the next page is shown,
  and the template saved then has the single page 1 with that region.
\<close>

theorem save_template_single_page_witness:
  "mouse_release ex_div ex_editor_empty ex_drawn = Inr ex_editor_drawn
   \<and> navigate ex_mul ex_editor_drawn [Next] = Inr ex_editor_page1
   \<and> save_template ex_editor_page1 ''t.json''
       = Some (''t.json'',
           JList [JDict [(''page'', JInt 1),
                         (''coordinates'',
                          JList [JDict [(''x'', JFloat 10), (''y'', JFloat 0),
                                        (''width'', JFloat 100), (''height'', JFloat 20)]])]])"
proof -
  have m: "mouse_release ex_div ex_editor_empty ex_drawn = Inr ex_editor_drawn"
    by (simp add: mouse_release_def bind_def ex_div_def ex_editor_empty_def ex_drawn_def
        ex_editor_drawn_def ex_rect1_def)
  have n: "navigate ex_mul ex_editor_drawn [Next] = Inr ex_editor_page1"
    by (simp add: bind_def next_page_def show_page_def ex_editor_page1_def ex_editor_drawn_def
        ex_editor_empty_def ex_gui_document_def ex_render_def scaled_rect_def ex_mul_def
        ex_rect1_def ex_drawn_def upt_rec)
  have p: "''t.json'' \<noteq> []" by simp
  from save_template_single_page
    [where st = ex_editor_empty and ?st1.0 = ex_editor_drawn and ?st2.0 = ex_editor_page1
       and fdiv = ex_div and fmul = ex_mul and rect = ex_drawn and navs = "[Next]"] m n
  obtain original where "selected_areas ex_editor_drawn = selected_areas ex_editor_empty @ [original]"
    and t: "template_data ex_editor_page1 =
               JList [JDict [(''page'', JInt (current_page_index ex_editor_page1)),
                             (''coordinates'',
                              JList (map area_json (selected_areas ex_editor_empty) @ [area_json original]))]]"
    by blast
  then have "original = ex_rect1" by (simp add: ex_editor_drawn_def ex_editor_empty_def)
  with t have "template_data ex_editor_page1 =
           JList [JDict [(''page'', JInt 1),
                         (''coordinates'',
                          JList [JDict [(''x'', JFloat 10), (''y'', JFloat 0),
                                        (''width'', JFloat 100), (''height'', JFloat 20)]])]]"
    by (simp add: ex_editor_page1_def ex_editor_drawn_def ex_editor_empty_def area_json_def ex_rect1_def)
  moreover from save_template_single_page [where st = ex_editor_page1 and file_path = "''t.json''"] p
  have "save_template ex_editor_page1 ''t.json'' = Some (''t.json'', template_data ex_editor_page1)"
    by blast
  ultimately show ?thesis using m n by simp
qed

section \<open>Round trip of a saved template\<close>

lemma traverse_read_area: "traverse read_area (map area_json rects) = Inr (map region_of rects)"
  by (induction rects) (simp_all add: read_area_def area_json_def region_of_def bind_def)

lemma validate_areas_area_json: "validate_areas (map area_json rects) = Inr ()"
  by (induction rects) (simp_all add: area_json_def dict_has_def)

lemma decode_template_data:
  "decode (template_data st) = Inr [(JInt (current_page_index st), map region_of (selected_areas st))]"
  by (simp add: decode_def template_data_def validate_page_def dict_has_def bind_def read_page_def
      validate_areas_area_json traverse_read_area)

lemma region_of_eq: "region_of r = region_of r' \<Longrightarrow> r = r'"
  by (simp add: region_of_def QRectF.equality)

lemma region_of_inj: "map region_of xs = map region_of ys \<Longrightarrow> xs = ys"
proof (induction xs arbitrary: ys)
  case Nil
  then show ?case by simp
next
  case (Cons r rs)
  then obtain r' rs' where "ys = r' # rs'" "region_of r = region_of r'" "map region_of rs = map region_of rs'"
    by (cases ys) auto
  with Cons.IH [of rs'] region_of_eq [of r r'] show ?case by simp
qed

text \<open>
  C6, as amended. The templates the code can encode are those that \<^verbatim>\<open>save_template\<close>
  builds from a state of the editor: one page entry, its page the integer index of the
  page displayed, its coordinates the four floats of every selected region. For every
  such template, reading it back gives its page index and its regions exactly: the value passes the validation,
  the fields read by the pipeline are the index and the four numbers of every region, in
  order, and two states that give the same decoded template have the same page index and
  the same regions. (The text written by \<^verbatim>\<open>json.dump\<close> and parsed by \<^verbatim>\<open>json.load\<close> is not
  modelled: for finite numbers the parsed value is the value written.)
\<close>

theorem template_round_trip:
  "decode (template_data st) = Inr [(JInt (current_page_index st), map region_of (selected_areas st))]
   \<and> (file_path \<noteq> [] \<longrightarrow>
        (\<exists>raw. save_template st file_path = Some (file_path, raw)
           \<and> decode raw = Inr [(JInt (current_page_index st), map region_of (selected_areas st))]))
   \<and> (decode (template_data st) = decode (template_data st') \<longrightarrow>
        current_page_index st = current_page_index st' \<and> selected_areas st = selected_areas st')"
  using region_of_inj [of "selected_areas st" "selected_areas st'"]
  by (auto simp: decode_template_data save_template_def)

text \<open>
  C6, witness: the editor with three regions.
\<close>

theorem template_round_trip_witness:
  "''t.json'' \<noteq> []
   \<and> save_template ex_editor ''t.json'' = Some (''t.json'', template_data ex_editor)
   \<and> decode (template_data ex_editor)
       = Inr [(JInt 0, [(JFloat 10, JFloat 0, JFloat 100, JFloat 20),
                        (JFloat 10, JFloat 30, JFloat (201 / 2), JFloat 20),
                        (JFloat 5, JFloat 60, JFloat 50, JFloat 10)])]
   \<and> decode (template_data ex_editor) = decode (template_data (ex_editor\<lparr>scale_factor := 2\<rparr>))
   \<and> selected_areas ex_editor = selected_areas (ex_editor\<lparr>scale_factor := 2\<rparr>)"
proof -
  have p: "''t.json'' \<noteq> []" by simp
  have d: "decode (template_data ex_editor) = decode (template_data (ex_editor\<lparr>scale_factor := 2\<rparr>))"
    by (simp add: template_data_def)
  from template_round_trip [of ex_editor "''t.json''" "ex_editor\<lparr>scale_factor := 2\<rparr>"] p d
  have "save_template ex_editor ''t.json'' = Some (''t.json'', template_data ex_editor)
    \<and> decode (template_data ex_editor)
       = Inr [(JInt (current_page_index ex_editor), map region_of (selected_areas ex_editor))]
    \<and> selected_areas ex_editor = selected_areas (ex_editor\<lparr>scale_factor := 2\<rparr>)"
    by (auto simp: save_template_def)
  with p d show ?thesis
    by (simp add: ex_editor_def region_of_def ex_rect1_def ex_rect2_def ex_rect3_def)
qed

text \<open>
  C6, counterexample to the claim as stated: a template of two pages and a template with
  integer coordinates are valid and decode, but no state of the editor encodes to either.
  A region drawn on the first page and a region drawn on the second are saved as one
  entry for page 1 with both regions, which is not the template of two pages.
\<close>

theorem template_round_trip_counterexample:
  "mouse_release ex_div ex_editor_empty ex_drawn = Inr ex_editor_drawn
   \<and> next_page ex_mul ex_editor_drawn = Inr ex_editor_page1
   \<and> mouse_release ex_div ex_editor_page1 ex_drawn2 = Inr ex_editor_two
   \<and> decode (template_data ex_editor_two) = Inr [(JInt 1, [region_of ex_rect1, region_of ex_rect2])]
   \<and> decode ex_two_pages = Inr [(JInt 0, [region_of ex_rect1]), (JInt 1, [region_of ex_rect2])]
   \<and> ex_two_pages \<notin> range (template_data :: rat editor \<Rightarrow> rat json)
   \<and> decode ex_template
       = Inr [(JInt 0, [(JInt 10, JInt 0, JInt 100, JInt 20), (JInt 10, JInt 30, JFloat (201 / 2), JInt 20)])]
   \<and> ex_template \<notin> range (template_data :: rat editor \<Rightarrow> rat json)"
proof -
  have m1: "mouse_release ex_div ex_editor_empty ex_drawn = Inr ex_editor_drawn"
    by (simp add: mouse_release_def bind_def ex_div_def ex_editor_empty_def ex_drawn_def
        ex_editor_drawn_def ex_rect1_def)
  have n: "next_page ex_mul ex_editor_drawn = Inr ex_editor_page1"
    by (simp add: next_page_def show_page_def ex_editor_page1_def ex_editor_drawn_def
        ex_editor_empty_def ex_gui_document_def ex_render_def scaled_rect_def ex_mul_def
        ex_rect1_def ex_drawn_def upt_rec)
  have m2: "mouse_release ex_div ex_editor_page1 ex_drawn2 = Inr ex_editor_two"
    by (simp add: mouse_release_def bind_def ex_div_def ex_editor_two_def ex_editor_page1_def
        ex_editor_drawn_def ex_editor_empty_def ex_drawn2_def ex_rect2_def)
  have d1: "decode (template_data ex_editor_two) = Inr [(JInt 1, [region_of ex_rect1, region_of ex_rect2])]"
    by (simp add: decode_template_data ex_editor_two_def ex_editor_page1_def)
  have d2: "decode ex_two_pages = Inr [(JInt 0, [region_of ex_rect1]), (JInt 1, [region_of ex_rect2])]"
    by (simp add: decode_def ex_two_pages_def validate_page_def dict_has_def bind_def read_page_def
        read_area_def area_json_def region_of_def)
  have r1: "ex_two_pages \<notin> range (template_data :: rat editor \<Rightarrow> rat json)"
    by (auto simp: template_data_def ex_two_pages_def)
  have d3: "decode ex_template
       = Inr [(JInt 0, [(JInt 10, JInt 0, JInt 100, JInt 20), (JInt 10, JInt 30, JFloat (201 / 2), JInt 20)])]"
    by (simp add: decode_def ex_template_def ex_page_template_def ex_area1_def ex_area2_def
        validate_page_def dict_has_def bind_def read_page_def read_area_def)
  have r2: "ex_template \<notin> range (template_data :: rat editor \<Rightarrow> rat json)"
    by (auto simp: template_data_def ex_template_def ex_page_template_def ex_area1_def ex_area2_def
        area_json_def)
  from m1 n m2 d1 d2 r1 d3 r2 show ?thesis by blast
qed

end
